theory Spec2Isabelle
  imports Complex_Main
begin

section \<open>The note repository of app.py\<close>

text \<open>
  The program keeps voice notes in a hosted vector store.  Three functions of
  \<^verbatim>\<open>app.py\<close> carry its logic: \<^verbatim>\<open>assure_db_collection_exists\<close>,
  \<^verbatim>\<open>add_note_to_db\<close> and \<^verbatim>\<open>list_notes_from_db\<close>, with the helper
  \<^verbatim>\<open>get_embedding\<close>.  Each of them is a short chain of calls to two external
  services, the embedding provider and the vector store.  The embedding below threads
  an explicit state through these calls: the contents of the store together with the
  log of every request the program has issued.  A Python exception is a value
  \<open>Inl e\<close>; the state that comes with it holds the effects that happened before the
  exception was raised.

  Not modelled: the user interface, the audio transcription, the loading of
  credentials (\<^verbatim>\<open>get_openai_client\<close>, \<^verbatim>\<open>get_qdrant_client\<close>) and the two
  \<^verbatim>\<open>print\<close> lines of the bootstrap.
\<close>

subsection \<open>Constants (app.py, lines 12 to 14)\<close>

definition EMBEDDING_MODEL :: string where
  "EMBEDDING_MODEL = ''text-embedding-3-large''"

definition EMBEDDING_DIM :: nat where
  "EMBEDDING_DIM = 3072"

definition QDRANT_COLLECTION_NAME :: string where
  "QDRANT_COLLECTION_NAME = ''notes''"

subsection \<open>Data\<close>

text \<open>
  A vector is a list of numbers.  The program never computes with the components or
  with a score, it only passes them on, so they are modelled as reals: every float
  that is not a NaN is a real, with the same order.
\<close>

type_synonym vector = "real list"

text \<open>\<^verbatim>\<open>PointStruct(id, vector, payload)\<close>; the payload is a Python dict.\<close>

record point =
  point_id :: nat
  vector :: vector
  payload :: "(string \<times> string) list"

datatype distance = COSINE | EUCLID | DOT | MANHATTAN

record collection =
  vectors_size :: nat
  vectors_distance :: distance
  points :: "point list"

text \<open>The dict \<^verbatim>\<open>{"text": ..., "score": ...}\<close> that \<^verbatim>\<open>list_notes_from_db\<close> returns.\<close>

record search_result =
  result_text :: string
  score :: "real option"

text \<open>
  The exceptions that can leave the three functions.  The program defines no exception
  class and catches nothing: \<open>EmbeddingError\<close> stands for whatever the provider's
  client raises, \<open>StoreError\<close> for whatever the store's client raises;
  \<open>IndexError\<close> and \<open>KeyError\<close> are Python's own, from \<^verbatim>\<open>result.data[0]\<close>
  and \<^verbatim>\<open>note.payload["text"]\<close>.
\<close>

datatype error = EmbeddingError | StoreError | IndexError | KeyError

text \<open>One constructor for each request the program can send to an external service.\<close>

datatype call =
    CollectionExists string
  | CreateCollection string nat distance
  | Count string
  | Upsert string "point list"
  | Scroll string nat
  | Search string vector nat
  | EmbeddingsCreate "string list" string nat

record world =
  collections :: "string \<Rightarrow> collection option"
  calls :: "call list"

type_synonym 'a outcome = "(error + 'a) \<times> world"

text \<open>
  The behaviour of the two services that the program cannot see into: what the
  provider answers to an embedding request (\<open>None\<close> when the call raises, otherwise
  the list \<^verbatim>\<open>result.data\<close> of embeddings), and the similarity the store reports
  for a query vector and a stored vector.  Every theorem below holds for all of them.
\<close>

record services =
  embeddings_create :: "string list \<Rightarrow> string \<Rightarrow> nat \<Rightarrow> vector list option"
  similarity :: "vector \<Rightarrow> vector \<Rightarrow> real"

definition issue :: "call \<Rightarrow> world \<Rightarrow> world" where
  "issue c w = w\<lparr>calls := calls w @ [c]\<rparr>"

text \<open>The requests issued between two states.\<close>

definition new_calls :: "world \<Rightarrow> world \<Rightarrow> call list" where
  "new_calls w w' = drop (length (calls w)) (calls w')"

subsection \<open>The vector store\<close>

text \<open>
  Modelled from the spec: the vector store is an external service, the repository
  holds only the calls to it.  Section 6 of the specification lists the six operations
  the program uses; each is modelled below as a function that logs the request and
  answers from the contents of the store.  A collection keeps its points in the order
  in which the store lists them; a point with a new id goes to the end, a point with
  an id that is already there takes the place of the old one (an exact-id upsert).  A
  request that names a collection that does not exist fails, and so does the creation
  of one that does.
\<close>

text \<open>Modelled from the spec: \<^verbatim>\<open>collection_exists(name) -> bool\<close>.\<close>

definition collection_exists :: "string \<Rightarrow> world \<Rightarrow> bool \<times> world" where
  "collection_exists name w =
     (collections w name \<noteq> None, issue (CollectionExists name) w)"

text \<open>
  Modelled from the spec: \<^verbatim>\<open>create_collection(name, vector_size, distance_metric)\<close>;
  the new collection is empty.
\<close>

definition create_collection :: "string \<Rightarrow> nat \<Rightarrow> distance \<Rightarrow> world \<Rightarrow> unit outcome" where
  "create_collection name vsize metric w =
     (let w1 = issue (CreateCollection name vsize metric) w in
      case collections w name of
        Some c \<Rightarrow> (Inl StoreError, w1)
      | None \<Rightarrow>
          (Inr (),
           w1\<lparr>collections := (collections w)
                 (name \<mapsto> \<lparr>vectors_size = vsize, vectors_distance = metric, points = []\<rparr>)\<rparr>))"

text \<open>
  Modelled from the spec: \<^verbatim>\<open>count(collection) -> integer\<close>, the number of points
  in the collection.
\<close>

definition count :: "string \<Rightarrow> world \<Rightarrow> nat outcome" where
  "count name w =
     (let w1 = issue (Count name) w in
      case collections w name of
        None \<Rightarrow> (Inl StoreError, w1)
      | Some c \<Rightarrow> (Inr (length (points c)), w1))"

text \<open>
  Modelled from the spec: \<^verbatim>\<open>upsert(collection, points)\<close>, point by point; the id
  decides whether a point is new or replaces a stored one.
\<close>

definition upsert_point :: "point list \<Rightarrow> point \<Rightarrow> point list" where
  "upsert_point ps p =
     (if point_id p \<in> point_id ` set ps
      then map (\<lambda>x. if point_id x = point_id p then p else x) ps
      else ps @ [p])"

definition upsert :: "string \<Rightarrow> point list \<Rightarrow> world \<Rightarrow> unit outcome" where
  "upsert name ps w =
     (let w1 = issue (Upsert name ps) w in
      case collections w name of
        None \<Rightarrow> (Inl StoreError, w1)
      | Some c \<Rightarrow>
          (Inr (),
           w1\<lparr>collections := (collections w)
                 (name \<mapsto> c\<lparr>points := foldl upsert_point (points c) ps\<rparr>)\<rparr>))"

text \<open>
  Modelled from the spec: \<^verbatim>\<open>scroll(collection, limit) -> list of points\<close>, the
  first page of the listing.  The client returns the page together with the offset of
  the next one; the program reads the page only.
\<close>

definition scroll :: "string \<Rightarrow> nat \<Rightarrow> world \<Rightarrow> point list outcome" where
  "scroll name limit w =
     (let w1 = issue (Scroll name limit) w in
      case collections w name of
        None \<Rightarrow> (Inl StoreError, w1)
      | Some c \<Rightarrow> (Inr (take limit (points c)), w1))"

text \<open>
  Modelled from the spec: \<^verbatim>\<open>search(collection, query_vector, limit)\<close>, each point
  with its similarity to the query vector, ordered by descending score, the first
  \<open>limit\<close> of them.
\<close>

definition search ::
  "services \<Rightarrow> string \<Rightarrow> vector \<Rightarrow> nat \<Rightarrow> world \<Rightarrow> (point \<times> real) list outcome" where
  "search sv name query_vector limit w =
     (let w1 = issue (Search name query_vector limit) w in
      case collections w name of
        None \<Rightarrow> (Inl StoreError, w1)
      | Some c \<Rightarrow>
          (Inr (take limit
                 (sort_key (\<lambda>h. - snd h)
                    (map (\<lambda>p. (p, similarity sv query_vector (vector p))) (points c)))),
           w1))"

subsection \<open>assure_db_collection_exists (app.py, lines 51 to 63)\<close>

definition assure_db_collection_exists :: "world \<Rightarrow> unit outcome" where
  "assure_db_collection_exists w =
     (case collection_exists QDRANT_COLLECTION_NAME w of
        (present, w1) \<Rightarrow>
          if \<not> present
          then create_collection QDRANT_COLLECTION_NAME EMBEDDING_DIM COSINE w1
          else (Inr (), w1))"

subsection \<open>get_embedding (app.py, lines 65 to 72)\<close>

definition get_embedding :: "services \<Rightarrow> string \<Rightarrow> world \<Rightarrow> vector outcome" where
  "get_embedding sv txt w =
     (let w1 = issue (EmbeddingsCreate [txt] EMBEDDING_MODEL EMBEDDING_DIM) w in
      case embeddings_create sv [txt] EMBEDDING_MODEL EMBEDDING_DIM of
        None \<Rightarrow> (Inl EmbeddingError, w1)
      | Some [] \<Rightarrow> (Inl IndexError, w1)
      | Some (d # _) \<Rightarrow> (Inr d, w1))"

subsection \<open>add_note_to_db (app.py, lines 74 to 85)\<close>

text \<open>
  Python evaluates the arguments of \<^verbatim>\<open>PointStruct\<close> from left to right and
  before the \<^verbatim>\<open>upsert\<close> call: the count is read first, then the embedding is
  requested, and only then is the point sent to the store.
\<close>

definition add_note_to_db :: "services \<Rightarrow> string \<Rightarrow> world \<Rightarrow> unit outcome" where
  "add_note_to_db sv note_text w =
     (case count QDRANT_COLLECTION_NAME w of
        (Inl e, w1) \<Rightarrow> (Inl e, w1)
      | (Inr current_count, w1) \<Rightarrow>
          (case get_embedding sv note_text w1 of
             (Inl e, w2) \<Rightarrow> (Inl e, w2)
           | (Inr v, w2) \<Rightarrow>
               upsert QDRANT_COLLECTION_NAME
                 [\<lparr>point_id = current_count + 1, vector = v,
                   payload = [(''text'', note_text)]\<rparr>] w2))"

subsection \<open>list_notes_from_db (app.py, lines 87 to 110)\<close>

text \<open>Python's \<^verbatim>\<open>not query\<close>: true for \<^verbatim>\<open>None\<close> and for the empty string.\<close>

definition falsy :: "string option \<Rightarrow> bool" where
  "falsy query = (query = None \<or> query = Some [])"

text \<open>
  The two \<^verbatim>\<open>for\<close> loops, with \<open>result\<close> as the list built so far.
  \<^verbatim>\<open>note.payload["text"]\<close> raises \<open>KeyError\<close> on a payload without that key.
\<close>

fun listed :: "point list \<Rightarrow> search_result list \<Rightarrow> error + search_result list" where
  "listed [] result = Inr result"
| "listed (note # notes) result =
     (case map_of (payload note) ''text'' of
        None \<Rightarrow> Inl KeyError
      | Some t \<Rightarrow> listed notes (result @ [\<lparr>result_text = t, score = None\<rparr>]))"

fun scored :: "(point \<times> real) list \<Rightarrow> search_result list \<Rightarrow> error + search_result list" where
  "scored [] result = Inr result"
| "scored (note # notes) result =
     (case map_of (payload (fst note)) ''text'' of
        None \<Rightarrow> Inl KeyError
      | Some t \<Rightarrow> scored notes (result @ [\<lparr>result_text = t, score = Some (snd note)\<rparr>]))"

definition list_notes_from_db ::
  "services \<Rightarrow> string option \<Rightarrow> world \<Rightarrow> search_result list outcome" where
  "list_notes_from_db sv query w =
     (if falsy query then
        (case scroll QDRANT_COLLECTION_NAME 10 w of
           (Inl e, w1) \<Rightarrow> (Inl e, w1)
         | (Inr notes, w1) \<Rightarrow> (listed notes [], w1))
      else
        (case get_embedding sv (the query) w of
           (Inl e, w1) \<Rightarrow> (Inl e, w1)
         | (Inr v, w1) \<Rightarrow>
             (case search sv QDRANT_COLLECTION_NAME v 10 w1 of
                (Inl e, w2) \<Rightarrow> (Inl e, w2)
              | (Inr notes, w2) \<Rightarrow> (scored notes [], w2))))"

subsection \<open>Observing a run\<close>

text \<open>The points sent to the store by the upsert requests of a log, in order.\<close>

fun upserted :: "call list \<Rightarrow> point list" where
  "upserted [] = []"
| "upserted (Upsert name ps # cs) = ps @ upserted cs"
| "upserted (c # cs) = upserted cs"

fun is_creation :: "call \<Rightarrow> bool" where
  "is_creation (CreateCollection name vsize metric) = True"
| "is_creation c = False"

fun is_upsert :: "call \<Rightarrow> bool" where
  "is_upsert (Upsert name ps) = True"
| "is_upsert c = False"

fun is_search :: "call \<Rightarrow> bool" where
  "is_search (Search name v limit) = True"
| "is_search c = False"

fun is_embedding :: "call \<Rightarrow> bool" where
  "is_embedding (EmbeddingsCreate input model dimensions) = True"
| "is_embedding c = False"

text \<open>A caller that runs the bootstrap \<open>n\<close> times in a row and keeps each outcome.\<close>

fun bootstrap_times :: "nat \<Rightarrow> world \<Rightarrow> (error + unit) list \<times> world" where
  "bootstrap_times 0 w = ([], w)"
| "bootstrap_times (Suc n) w =
     (case assure_db_collection_exists w of
        (r, w1) \<Rightarrow> (case bootstrap_times n w1 of (rs, w2) \<Rightarrow> (r # rs, w2)))"

subsection \<open>The dimension invariant\<close>

text \<open>
  A point is embedded with \<open>dimensions\<close> when its payload has a text and its vector
  is the first embedding of the provider's answer to the request for that text, the
  program's model and that number of dimensions.
\<close>

definition embedded_with :: "services \<Rightarrow> nat \<Rightarrow> point \<Rightarrow> bool" where
  "embedded_with sv dimensions p =
     (case map_of (payload p) ''text'' of
        None \<Rightarrow> False
      | Some t \<Rightarrow>
          (case embeddings_create sv [t] EMBEDDING_MODEL dimensions of
             None \<Rightarrow> False
           | Some [] \<Rightarrow> False
           | Some (d # _) \<Rightarrow> vector p = d))"

text \<open>
  A store is well-dimensioned when the collection exists, is configured for vectors of
  size \<open>EMBEDDING_DIM\<close>, and every point of it is embedded with the size the
  collection is configured for.
\<close>

definition dimension_invariant :: "services \<Rightarrow> world \<Rightarrow> bool" where
  "dimension_invariant sv w =
     (case collections w QDRANT_COLLECTION_NAME of
        None \<Rightarrow> False
      | Some c \<Rightarrow>
          vectors_size c = EMBEDDING_DIM
          \<and> list_all (embedded_with sv (vectors_size c)) (points c))"

text \<open>A caller that adds the texts one after the other, whatever each add returns.\<close>

fun add_notes :: "services \<Rightarrow> string list \<Rightarrow> world \<Rightarrow> world" where
  "add_notes sv [] w = w"
| "add_notes sv (t # ts) w = add_notes sv ts (snd (add_note_to_db sv t w))"

subsection \<open>Concrete scenarios\<close>

text \<open>
  Stub services and small stores on which the theorems are exercised.  The stub
  provider answers every request with one vector of the requested length per input,
  whose first component is the length of the text; the stub store scores a point by
  how close its first component is to the query's.
\<close>

definition stub_vector :: "nat \<Rightarrow> real \<Rightarrow> vector" where
  "stub_vector dimensions x = x # replicate (dimensions - 1) 0"

definition stub_services :: services where
  "stub_services =
     \<lparr>embeddings_create =
        (\<lambda>input model dimensions.
           Some (map (\<lambda>t. stub_vector dimensions (real (length t))) input)),
      similarity = (\<lambda>q v. - \<bar>hd q - hd v\<bar>)\<rparr>"

definition failing_services :: services where
  "failing_services =
     \<lparr>embeddings_create = (\<lambda>input model dimensions. None),
      similarity = (\<lambda>q v. - \<bar>hd q - hd v\<bar>)\<rparr>"

definition stored_note :: "nat \<Rightarrow> string \<Rightarrow> point" where
  "stored_note i t =
     \<lparr>point_id = i, vector = stub_vector EMBEDDING_DIM (real (length t)),
      payload = [(''text'', t)]\<rparr>"

definition empty_store :: world where
  "empty_store = \<lparr>collections = (\<lambda>name. None), calls = []\<rparr>"

definition notes_store :: "point list \<Rightarrow> world" where
  "notes_store ps =
     \<lparr>collections = (\<lambda>name. None)
        (QDRANT_COLLECTION_NAME \<mapsto>
           \<lparr>vectors_size = EMBEDDING_DIM, vectors_distance = COSINE, points = ps\<rparr>),
      calls = []\<rparr>"

definition five_notes :: "point list" where
  "five_notes =
     [stored_note 1 ''a'', stored_note 2 ''b'', stored_note 3 ''c'',
      stored_note 4 ''d'', stored_note 5 ''e'']"

text \<open>Five notes of which the fifth was removed and a sixth was added by another client.\<close>

definition gap_notes :: "point list" where
  "gap_notes =
     [stored_note 1 ''a'', stored_note 2 ''b'', stored_note 3 ''c'',
      stored_note 4 ''d'', stored_note 6 ''f'']"

definition ten_notes :: "point list" where
  "ten_notes =
     [stored_note 1 ''memo'', stored_note 2 ''memo'', stored_note 3 ''memo'',
      stored_note 4 ''memo'', stored_note 5 ''memo'', stored_note 6 ''memo'',
      stored_note 7 ''memo'', stored_note 8 ''memo'', stored_note 9 ''memo'',
      stored_note 10 ''memo'']"

definition fifteen_notes :: "point list" where
  "fifteen_notes =
     ten_notes @
     [stored_note 11 ''memo'', stored_note 12 ''memo'', stored_note 13 ''memo'',
      stored_note 14 ''memo'', stored_note 15 ''memo'']"

text \<open>The two notes of the ranking scenario, the farther one stored first.\<close>

definition recipe_notes :: "point list" where
  "recipe_notes = [stored_note 1 ''car engine repair'', stored_note 2 ''apple pie recipe'']"

section \<open>Properties\<close>

subsection \<open>The request log\<close>

lemma calls_issue: "calls (issue c w) = calls w @ [c]"
  by (simp add: issue_def)

lemma collections_issue: "collections (issue c w) = collections w"
  by (simp add: issue_def)

subsection \<open>The scenarios\<close>

lemma hd_stub_vector: "hd (stub_vector d x) = x"
  by (simp add: stub_vector_def)

lemma length_stub_vector: "0 < d \<Longrightarrow> length (stub_vector d x) = d"
  by (simp add: stub_vector_def)

lemma stub_embedding:
  "embeddings_create stub_services [t] m d = Some [stub_vector d (real (length t))]"
  by (simp add: stub_services_def)

lemma failing_embedding: "embeddings_create failing_services input m d = None"
  by (simp add: failing_services_def)

lemma collections_notes_store:
  "collections (notes_store ps) QDRANT_COLLECTION_NAME =
     Some \<lparr>vectors_size = EMBEDDING_DIM, vectors_distance = COSINE, points = ps\<rparr>"
  by (simp add: notes_store_def)

lemma calls_notes_store: "calls (notes_store ps) = []"
  by (simp add: notes_store_def)

subsection \<open>What add_note_to_db does, case by case\<close>

lemma add_note_to_db_absent:
  "collections w QDRANT_COLLECTION_NAME = None \<Longrightarrow>
   add_note_to_db sv t w = (Inl StoreError, issue (Count QDRANT_COLLECTION_NAME) w)"
  by (simp add: add_note_to_db_def count_def)

lemma add_note_to_db_raises:
  "collections w QDRANT_COLLECTION_NAME = Some c \<Longrightarrow>
   embeddings_create sv [t] EMBEDDING_MODEL EMBEDDING_DIM = None \<Longrightarrow>
   add_note_to_db sv t w =
     (Inl EmbeddingError,
      issue (EmbeddingsCreate [t] EMBEDDING_MODEL EMBEDDING_DIM)
        (issue (Count QDRANT_COLLECTION_NAME) w))"
  by (simp add: add_note_to_db_def count_def get_embedding_def collections_issue)

lemma add_note_to_db_no_data:
  "collections w QDRANT_COLLECTION_NAME = Some c \<Longrightarrow>
   embeddings_create sv [t] EMBEDDING_MODEL EMBEDDING_DIM = Some [] \<Longrightarrow>
   add_note_to_db sv t w =
     (Inl IndexError,
      issue (EmbeddingsCreate [t] EMBEDDING_MODEL EMBEDDING_DIM)
        (issue (Count QDRANT_COLLECTION_NAME) w))"
  by (simp add: add_note_to_db_def count_def get_embedding_def collections_issue)

lemma add_note_to_db_stores:
  "collections w QDRANT_COLLECTION_NAME = Some c \<Longrightarrow>
   embeddings_create sv [t] EMBEDDING_MODEL EMBEDDING_DIM = Some (v # rest) \<Longrightarrow>
   add_note_to_db sv t w =
     (Inr (),
      \<lparr>collections = (collections w)
         (QDRANT_COLLECTION_NAME \<mapsto>
            c\<lparr>points := upsert_point (points c)
                 \<lparr>point_id = length (points c) + 1, vector = v, payload = [(''text'', t)]\<rparr>\<rparr>),
       calls = calls w @
         [Count QDRANT_COLLECTION_NAME,
          EmbeddingsCreate [t] EMBEDDING_MODEL EMBEDDING_DIM,
          Upsert QDRANT_COLLECTION_NAME
            [\<lparr>point_id = length (points c) + 1, vector = v, payload = [(''text'', t)]\<rparr>]]\<rparr>)"
  by (simp add: add_note_to_db_def count_def get_embedding_def upsert_def issue_def)

subsection \<open>C1: the id of a new note\<close>

text \<open>
  Claim C1, as amended.  In a collection that holds \<open>n\<close> points, every point that
  \<^verbatim>\<open>add_note_to_db\<close> sends to the store has the id \<open>n + 1\<close>, and when the
  embedding request succeeds it sends exactly one point, with that id, the embedding
  and the text.  When moreover no point of the collection has the id \<open>n + 1\<close>, a
  following \<^verbatim>\<open>add_note_to_db\<close> sends its point with the id \<open>n + 2\<close>: from a
  count of 5 the ids are 6 and then 7.  The condition is needed: where the id
  \<open>n + 1\<close> is taken, the first call overwrites that point, the count stays \<open>n\<close>
  and the following call uses \<open>n + 1\<close> again (the counterexample below).
\<close>

theorem add_note_to_db_assigns_count_plus_one:
  assumes present: "collections w QDRANT_COLLECTION_NAME = Some c"
  shows "(\<forall>p \<in> set (upserted (new_calls w (snd (add_note_to_db sv t w)))).
            point_id p = length (points c) + 1)
       \<and> (embeddings_create sv [t] EMBEDDING_MODEL EMBEDDING_DIM = Some (v # rest) \<longrightarrow>
            upserted (new_calls w (snd (add_note_to_db sv t w))) =
              [\<lparr>point_id = length (points c) + 1, vector = v, payload = [(''text'', t)]\<rparr>])
       \<and> (embeddings_create sv [t] EMBEDDING_MODEL EMBEDDING_DIM = Some (v # rest) \<longrightarrow>
          embeddings_create sv [t'] EMBEDDING_MODEL EMBEDDING_DIM = Some (v' # rest') \<longrightarrow>
          length (points c) + 1 \<notin> point_id ` set (points c) \<longrightarrow>
            upserted (new_calls (snd (add_note_to_db sv t w))
                        (snd (add_note_to_db sv t' (snd (add_note_to_db sv t w))))) =
              [\<lparr>point_id = length (points c) + 2, vector = v', payload = [(''text'', t')]\<rparr>])"
proof (intro conjI impI)
  show "\<forall>p \<in> set (upserted (new_calls w (snd (add_note_to_db sv t w)))).
          point_id p = length (points c) + 1"
  proof (cases "embeddings_create sv [t] EMBEDDING_MODEL EMBEDDING_DIM")
    case None
    then show ?thesis
      by (simp add: add_note_to_db_raises [OF present] new_calls_def calls_issue)
  next
    case (Some ds)
    then show ?thesis
    proof (cases ds)
      case Nil
      with Some show ?thesis
        by (simp add: add_note_to_db_no_data [OF present] new_calls_def calls_issue)
    next
      case (Cons d ds')
      with Some show ?thesis
        by (simp add: add_note_to_db_stores [OF present] new_calls_def)
    qed
  qed
next
  assume ok: "embeddings_create sv [t] EMBEDDING_MODEL EMBEDDING_DIM = Some (v # rest)"
  show "upserted (new_calls w (snd (add_note_to_db sv t w))) =
          [\<lparr>point_id = length (points c) + 1, vector = v, payload = [(''text'', t)]\<rparr>]"
    by (simp add: add_note_to_db_stores [OF present ok] new_calls_def)
next
  assume ok: "embeddings_create sv [t] EMBEDDING_MODEL EMBEDDING_DIM = Some (v # rest)"
    and ok': "embeddings_create sv [t'] EMBEDDING_MODEL EMBEDDING_DIM = Some (v' # rest')"
    and fresh: "length (points c) + 1 \<notin> point_id ` set (points c)"
  let ?p = "\<lparr>point_id = length (points c) + 1, vector = v, payload = [(''text'', t)]\<rparr>"
  let ?w1 = "snd (add_note_to_db sv t w)"
  have grown: "upsert_point (points c) ?p = points c @ [?p]"
    using fresh by (simp add: upsert_point_def)
  have present1:
    "collections ?w1 QDRANT_COLLECTION_NAME = Some (c\<lparr>points := points c @ [?p]\<rparr>)"
    using grown by (simp add: add_note_to_db_stores [OF present ok])
  show "upserted (new_calls ?w1 (snd (add_note_to_db sv t' ?w1))) =
          [\<lparr>point_id = length (points c) + 2, vector = v', payload = [(''text'', t')]\<rparr>]"
    by (simp add: add_note_to_db_stores [OF present1 ok'] new_calls_def)
qed

text \<open>
  The scenario of the specification: five notes with the ids 1 to 5, then
  \<^verbatim>\<open>add_note("x")\<close> and \<^verbatim>\<open>add_note("y")\<close>.
\<close>

theorem add_note_to_db_assigns_count_plus_one_witness:
  "fst (count QDRANT_COLLECTION_NAME (notes_store five_notes)) = Inr 5
   \<and> 6 \<notin> point_id ` set five_notes
   \<and> upserted (new_calls (notes_store five_notes)
        (snd (add_note_to_db stub_services ''x'' (notes_store five_notes)))) =
       [\<lparr>point_id = 6, vector = stub_vector EMBEDDING_DIM 1, payload = [(''text'', ''x'')]\<rparr>]
   \<and> upserted (new_calls (snd (add_note_to_db stub_services ''x'' (notes_store five_notes)))
        (snd (add_note_to_db stub_services ''y''
           (snd (add_note_to_db stub_services ''x'' (notes_store five_notes)))))) =
       [\<lparr>point_id = 7, vector = stub_vector EMBEDDING_DIM 1, payload = [(''text'', ''y'')]\<rparr>]"
  using add_note_to_db_assigns_count_plus_one
    [OF collections_notes_store, of five_notes stub_services "''x''"
       "stub_vector EMBEDDING_DIM 1" "[]" "''y''" "stub_vector EMBEDDING_DIM 1" "[]"]
  by (simp add: stub_embedding count_def collections_notes_store five_notes_def stored_note_def)

text \<open>
  The claim as it was stated fails on a collection whose count is 5 and which holds a
  point with the id 6: both calls send their point with the id 6, none with the id 7.
\<close>

theorem add_note_to_db_repeats_id_counterexample:
  "fst (count QDRANT_COLLECTION_NAME (notes_store gap_notes)) = Inr 5
   \<and> map point_id (upserted (new_calls (notes_store gap_notes)
        (snd (add_note_to_db stub_services ''x'' (notes_store gap_notes))))) = [6]
   \<and> map point_id (upserted
        (new_calls (snd (add_note_to_db stub_services ''x'' (notes_store gap_notes)))
           (snd (add_note_to_db stub_services ''y''
              (snd (add_note_to_db stub_services ''x'' (notes_store gap_notes))))))) = [6]"
proof -
  let ?w = "notes_store gap_notes"
  let ?c = "\<lparr>vectors_size = EMBEDDING_DIM, vectors_distance = COSINE, points = gap_notes\<rparr>"
  let ?p = "\<lparr>point_id = 6, vector = stub_vector EMBEDDING_DIM 1, payload = [(''text'', ''x'')]\<rparr>"
  have n: "length gap_notes = 5"
    by (simp add: gap_notes_def)
  have first: "add_note_to_db stub_services ''x'' ?w =
      (Inr (), \<lparr>collections = (collections ?w)
         (QDRANT_COLLECTION_NAME \<mapsto> ?c\<lparr>points := upsert_point (points ?c) ?p\<rparr>),
       calls = calls ?w @
         [Count QDRANT_COLLECTION_NAME,
          EmbeddingsCreate [''x''] EMBEDDING_MODEL EMBEDDING_DIM,
          Upsert QDRANT_COLLECTION_NAME [?p]]\<rparr>)"
    using add_note_to_db_stores
      [OF collections_notes_store, of stub_services "''x''" _ "[]" gap_notes]
    by (simp add: stub_embedding n)
  have replaced: "length (upsert_point gap_notes ?p) = 5"
    by (simp add: upsert_point_def gap_notes_def stored_note_def)
  have present1:
    "collections (snd (add_note_to_db stub_services ''x'' ?w)) QDRANT_COLLECTION_NAME =
       Some (?c\<lparr>points := upsert_point gap_notes ?p\<rparr>)"
    by (simp add: first)
  show ?thesis
    using add_note_to_db_stores [OF present1, of stub_services "''y''" _ "[]"]
    by (simp add: first stub_embedding n replaced count_def collections_notes_store
        new_calls_def)
qed

subsection \<open>What get_embedding and the search branch do when the provider raises\<close>

lemma get_embedding_raises:
  "embeddings_create sv [t] EMBEDDING_MODEL EMBEDDING_DIM = None \<Longrightarrow>
   get_embedding sv t w =
     (Inl EmbeddingError, issue (EmbeddingsCreate [t] EMBEDDING_MODEL EMBEDDING_DIM) w)"
  by (simp add: get_embedding_def)

lemma get_embedding_no_data:
  "embeddings_create sv [t] EMBEDDING_MODEL EMBEDDING_DIM = Some [] \<Longrightarrow>
   get_embedding sv t w =
     (Inl IndexError, issue (EmbeddingsCreate [t] EMBEDDING_MODEL EMBEDDING_DIM) w)"
  by (simp add: get_embedding_def)

lemma get_embedding_answers:
  "embeddings_create sv [t] EMBEDDING_MODEL EMBEDDING_DIM = Some (v # rest) \<Longrightarrow>
   get_embedding sv t w =
     (Inr v, issue (EmbeddingsCreate [t] EMBEDDING_MODEL EMBEDDING_DIM) w)"
  by (simp add: get_embedding_def)

lemma list_notes_from_db_raises:
  "q \<noteq> [] \<Longrightarrow> embeddings_create sv [q] EMBEDDING_MODEL EMBEDDING_DIM = None \<Longrightarrow>
   list_notes_from_db sv (Some q) w =
     (Inl EmbeddingError, issue (EmbeddingsCreate [q] EMBEDDING_MODEL EMBEDDING_DIM) w)"
  by (simp add: list_notes_from_db_def falsy_def get_embedding_raises)

lemma add_note_to_db_requests_embedding:
  "EmbeddingsCreate [t] EMBEDDING_MODEL EMBEDDING_DIM
     \<in> set (new_calls w (snd (add_note_to_db sv t w)))
   \<longleftrightarrow> collections w QDRANT_COLLECTION_NAME \<noteq> None"
proof (cases "collections w QDRANT_COLLECTION_NAME")
  case None
  then show ?thesis
    by (simp add: add_note_to_db_absent new_calls_def calls_issue)
next
  case present: (Some c)
  show ?thesis
  proof (cases "embeddings_create sv [t] EMBEDDING_MODEL EMBEDDING_DIM")
    case None
    with present show ?thesis
      by (simp add: add_note_to_db_raises new_calls_def calls_issue)
  next
    case (Some ds)
    with present show ?thesis
      by (cases ds)
        (simp_all add: add_note_to_db_no_data add_note_to_db_stores new_calls_def calls_issue)
  qed
qed

subsection \<open>C2: a failure of the embedding provider\<close>

text \<open>
  Claim C2.  Suppose the embedding provider raises on the requests for the text \<open>t\<close>
  and for the non-empty query \<open>q\<close>.  Then \<^verbatim>\<open>list_notes_from_db\<close> fails with
  \<open>EmbeddingError\<close> after the embedding request alone, and \<^verbatim>\<open>add_note_to_db\<close>,
  once it has sent its embedding request, fails with \<open>EmbeddingError\<close> after the
  count and that request.  Neither run issues an upsert or a search, and each leaves
  the contents of the store as they were.  (\<^verbatim>\<open>add_note_to_db\<close> reads the count
  before it calls the provider; by \<open>add_note_to_db_requests_embedding\<close> it sends the
  request exactly when the collection exists.)
\<close>

theorem embedding_failure_propagates:
  assumes raises_t: "embeddings_create sv [t] EMBEDDING_MODEL EMBEDDING_DIM = None"
    and raises_q: "embeddings_create sv [q] EMBEDDING_MODEL EMBEDDING_DIM = None"
    and nonempty: "q \<noteq> []"
  shows "(EmbeddingsCreate [t] EMBEDDING_MODEL EMBEDDING_DIM
            \<in> set (new_calls w (snd (add_note_to_db sv t w))) \<longrightarrow>
          fst (add_note_to_db sv t w) = Inl EmbeddingError
          \<and> new_calls w (snd (add_note_to_db sv t w)) =
              [Count QDRANT_COLLECTION_NAME,
               EmbeddingsCreate [t] EMBEDDING_MODEL EMBEDDING_DIM])
       \<and> fst (list_notes_from_db sv (Some q) w) = Inl EmbeddingError
       \<and> new_calls w (snd (list_notes_from_db sv (Some q) w)) =
           [EmbeddingsCreate [q] EMBEDDING_MODEL EMBEDDING_DIM]
       \<and> filter (\<lambda>c. is_upsert c \<or> is_search c)
            (new_calls w (snd (add_note_to_db sv t w))) = []
       \<and> filter (\<lambda>c. is_upsert c \<or> is_search c)
            (new_calls w (snd (list_notes_from_db sv (Some q) w))) = []
       \<and> collections (snd (add_note_to_db sv t w)) = collections w
       \<and> collections (snd (list_notes_from_db sv (Some q) w)) = collections w"
proof -
  have find: "list_notes_from_db sv (Some q) w =
      (Inl EmbeddingError, issue (EmbeddingsCreate [q] EMBEDDING_MODEL EMBEDDING_DIM) w)"
    by (rule list_notes_from_db_raises [OF nonempty raises_q])
  show ?thesis
  proof (cases "collections w QDRANT_COLLECTION_NAME")
    case None
    then show ?thesis
      by (simp add: add_note_to_db_absent find new_calls_def calls_issue collections_issue)
  next
    case (Some c)
    have add: "add_note_to_db sv t w =
        (Inl EmbeddingError,
         issue (EmbeddingsCreate [t] EMBEDDING_MODEL EMBEDDING_DIM)
           (issue (Count QDRANT_COLLECTION_NAME) w))"
      by (rule add_note_to_db_raises [OF Some raises_t])
    show ?thesis
      by (simp add: add find new_calls_def calls_issue collections_issue)
  qed
qed

text \<open>A provider that always raises, on the store of five notes.\<close>

theorem embedding_failure_propagates_witness:
  "embeddings_create failing_services [''x''] EMBEDDING_MODEL EMBEDDING_DIM = None
   \<and> EmbeddingsCreate [''x''] EMBEDDING_MODEL EMBEDDING_DIM
       \<in> set (new_calls (notes_store five_notes)
               (snd (add_note_to_db failing_services ''x'' (notes_store five_notes))))
   \<and> fst (add_note_to_db failing_services ''x'' (notes_store five_notes)) = Inl EmbeddingError
   \<and> fst (list_notes_from_db failing_services (Some ''query'') (notes_store five_notes)) =
       Inl EmbeddingError
   \<and> new_calls (notes_store five_notes)
        (snd (add_note_to_db failing_services ''x'' (notes_store five_notes))) =
       [Count QDRANT_COLLECTION_NAME, EmbeddingsCreate [''x''] EMBEDDING_MODEL EMBEDDING_DIM]
   \<and> new_calls (notes_store five_notes)
        (snd (list_notes_from_db failing_services (Some ''query'') (notes_store five_notes))) =
       [EmbeddingsCreate [''query''] EMBEDDING_MODEL EMBEDDING_DIM]
   \<and> collections (snd (add_note_to_db failing_services ''x'' (notes_store five_notes))) =
       collections (notes_store five_notes)"
proof -
  have issued: "EmbeddingsCreate [''x''] EMBEDDING_MODEL EMBEDDING_DIM
      \<in> set (new_calls (notes_store five_notes)
              (snd (add_note_to_db failing_services ''x'' (notes_store five_notes))))"
    by (simp add: add_note_to_db_requests_embedding collections_notes_store)
  show ?thesis
    using embedding_failure_propagates
      [where sv = failing_services and t = "''x''" and q = "''query''"
         and w = "notes_store five_notes"]
    by (simp add: failing_embedding issued)
qed

subsection \<open>The listing branch of list_notes_from_db\<close>

lemma list_notes_from_db_lists:
  "falsy query \<Longrightarrow> collections w QDRANT_COLLECTION_NAME = Some c \<Longrightarrow>
   list_notes_from_db sv query w =
     (listed (take 10 (points c)) [], issue (Scroll QDRANT_COLLECTION_NAME 10) w)"
  by (simp add: list_notes_from_db_def scroll_def)

lemma list_notes_from_db_lists_absent:
  "falsy query \<Longrightarrow> collections w QDRANT_COLLECTION_NAME = None \<Longrightarrow>
   list_notes_from_db sv query w =
     (Inl StoreError, issue (Scroll QDRANT_COLLECTION_NAME 10) w)"
  by (simp add: list_notes_from_db_def scroll_def)

lemma listed_Inr:
  "listed ns acc = Inr rs \<Longrightarrow>
   \<exists>new. rs = acc @ new \<and>
     list_all2 (\<lambda>p r. map_of (payload p) ''text'' = Some (result_text r) \<and> score r = None)
       ns new"
proof (induction ns arbitrary: acc)
  case Nil
  then show ?case by simp
next
  case (Cons x ns)
  from Cons.prems obtain t where t: "map_of (payload x) ''text'' = Some t"
    and rest: "listed ns (acc @ [\<lparr>result_text = t, score = None\<rparr>]) = Inr rs"
    by (auto split: option.splits)
  from Cons.IH [OF rest] obtain new where
    "rs = (acc @ [\<lparr>result_text = t, score = None\<rparr>]) @ new"
    "list_all2 (\<lambda>p r. map_of (payload p) ''text'' = Some (result_text r) \<and> score r = None)
       ns new"
    by blast
  with t show ?case
    by (intro exI [of _ "\<lparr>result_text = t, score = None\<rparr> # new"]) simp
qed

lemma listed_total:
  "\<forall>p \<in> set ns. map_of (payload p) ''text'' \<noteq> None \<Longrightarrow> \<exists>rs. listed ns acc = Inr rs"
  by (induction ns arbitrary: acc) auto

lemma listed_length: "listed ns acc = Inr rs \<Longrightarrow> length rs = length acc + length ns"
  by (induction ns arbitrary: acc) (auto split: option.splits)

lemma listed_member:
  "listed ns acc = Inr rs \<Longrightarrow> p \<in> set ns \<Longrightarrow> map_of (payload p) ''text'' = Some t \<Longrightarrow>
   \<lparr>result_text = t, score = None\<rparr> \<in> set rs"
proof (induction ns arbitrary: acc)
  case Nil
  then show ?case by simp
next
  case (Cons x ns)
  from Cons.prems(1) obtain u where u: "map_of (payload x) ''text'' = Some u"
    and rest: "listed ns (acc @ [\<lparr>result_text = u, score = None\<rparr>]) = Inr rs"
    by (auto split: option.splits)
  show ?case
  proof (cases "p = x")
    case True
    with u Cons.prems(3) have "u = t" by simp
    moreover from listed_Inr [OF rest] have "\<lparr>result_text = u, score = None\<rparr> \<in> set rs"
      by auto
    ultimately show ?thesis by simp
  next
    case False
    with Cons.prems(2) have "p \<in> set ns" by simp
    from Cons.IH [OF rest this Cons.prems(3)] show ?thesis .
  qed
qed

lemma upsert_point_member: "p \<in> set (upsert_point ps p)"
  by (auto simp: upsert_point_def)

lemma add_note_to_db_Inr:
  assumes "fst (add_note_to_db sv t w) = Inr ()"
  obtains c v rest where "collections w QDRANT_COLLECTION_NAME = Some c"
    and "embeddings_create sv [t] EMBEDDING_MODEL EMBEDDING_DIM = Some (v # rest)"
proof (cases "collections w QDRANT_COLLECTION_NAME")
  case None
  with assms show ?thesis by (simp add: add_note_to_db_absent)
next
  case present: (Some c)
  show ?thesis
  proof (cases "embeddings_create sv [t] EMBEDDING_MODEL EMBEDDING_DIM")
    case None
    with assms present show ?thesis by (simp add: add_note_to_db_raises)
  next
    case (Some ds)
    with assms present that show ?thesis
      by (cases ds) (simp_all add: add_note_to_db_no_data)
  qed
qed

lemma length_five_notes: "length five_notes = 5"
  by (simp add: five_notes_def)

lemma length_ten_notes: "length ten_notes = 10"
  by (simp add: ten_notes_def)

lemma take_fifteen_notes: "take 10 fifteen_notes = ten_notes"
  by (simp add: fifteen_notes_def length_ten_notes)

lemma listed_memos:
  "\<forall>p \<in> set ns. map_of (payload p) ''text'' = Some ''memo'' \<Longrightarrow>
   listed ns acc = Inr (acc @ replicate (length ns) \<lparr>result_text = ''memo'', score = None\<rparr>)"
  by (induction ns arbitrary: acc) (simp_all add: replicate_app_Cons_same)

lemma ten_notes_memos: "\<forall>p \<in> set ten_notes. map_of (payload p) ''text'' = Some ''memo''"
  by (simp add: ten_notes_def stored_note_def)

lemma listed_ten_notes:
  "listed ten_notes [] = Inr (replicate 10 \<lparr>result_text = ''memo'', score = None\<rparr>)"
  using listed_memos [OF ten_notes_memos, of "[]"] by (simp add: length_ten_notes)

subsection \<open>C3: a note that was added is listed\<close>

text \<open>
  Claim C3, as amended.  After \<^verbatim>\<open>add_note_to_db\<close> has succeeded for a text
  \<open>t\<close> and has left at most 10 points in the collection, every sequence that
  \<^verbatim>\<open>list_notes_from_db\<close> returns for an absent query contains a result with the
  text \<open>t\<close> and no score; and it does return a sequence when every point of the
  collection carries a text in its payload.  The bound is needed: the listing reads
  one page of 10 points, and on a collection of 10 notes the eleventh is not on it
  (the counterexample below).
\<close>

theorem added_note_is_listed:
  assumes added: "fst (add_note_to_db sv t w) = Inr ()"
    and after: "collections (snd (add_note_to_db sv t w)) QDRANT_COLLECTION_NAME = Some c'"
    and room: "length (points c') \<le> 10"
  shows "(\<forall>rs. fst (list_notes_from_db sv None (snd (add_note_to_db sv t w))) = Inr rs \<longrightarrow>
            \<lparr>result_text = t, score = None\<rparr> \<in> set rs)
       \<and> ((\<forall>p \<in> set (points c'). map_of (payload p) ''text'' \<noteq> None) \<longrightarrow>
            (\<exists>rs. fst (list_notes_from_db sv None (snd (add_note_to_db sv t w))) = Inr rs))"
proof -
  let ?w1 = "snd (add_note_to_db sv t w)"
  from added obtain c v rest where present: "collections w QDRANT_COLLECTION_NAME = Some c"
    and ok: "embeddings_create sv [t] EMBEDDING_MODEL EMBEDDING_DIM = Some (v # rest)"
    by (rule add_note_to_db_Inr)
  let ?p = "\<lparr>point_id = length (points c) + 1, vector = v, payload = [(''text'', t)]\<rparr>"
  from after have c': "points c' = upsert_point (points c) ?p"
    by (auto simp: add_note_to_db_stores [OF present ok])
  have stored: "?p \<in> set (points c')"
    by (simp only: c' upsert_point_member)
  have find: "list_notes_from_db sv None ?w1 =
      (listed (points c') [], issue (Scroll QDRANT_COLLECTION_NAME 10) ?w1)"
    using room by (simp add: list_notes_from_db_lists [OF _ after] falsy_def)
  have "\<lparr>result_text = t, score = None\<rparr> \<in> set rs"
    if "fst (list_notes_from_db sv None ?w1) = Inr rs" for rs
    using that stored by (auto simp: find intro: listed_member)
  moreover have "\<exists>rs. fst (list_notes_from_db sv None ?w1) = Inr rs"
    if "\<forall>p \<in> set (points c'). map_of (payload p) ''text'' \<noteq> None"
    using listed_total [OF that] by (simp add: find)
  ultimately show ?thesis by blast
qed


text \<open>The scenario of the specification, on a store of five notes.\<close>

theorem added_note_is_listed_witness:
  "fst (add_note_to_db stub_services ''hello world'' (notes_store five_notes)) = Inr ()
   \<and> fst (list_notes_from_db stub_services None
        (snd (add_note_to_db stub_services ''hello world'' (notes_store five_notes)))) =
       Inr [\<lparr>result_text = ''a'', score = None\<rparr>, \<lparr>result_text = ''b'', score = None\<rparr>,
            \<lparr>result_text = ''c'', score = None\<rparr>, \<lparr>result_text = ''d'', score = None\<rparr>,
            \<lparr>result_text = ''e'', score = None\<rparr>,
            \<lparr>result_text = ''hello world'', score = None\<rparr>]
   \<and> \<lparr>result_text = ''hello world'', score = None\<rparr>
       \<in> set (projr (fst (list_notes_from_db stub_services None
           (snd (add_note_to_db stub_services ''hello world'' (notes_store five_notes))))))"
proof -
  let ?w = "notes_store five_notes"
  let ?c = "\<lparr>vectors_size = EMBEDDING_DIM, vectors_distance = COSINE, points = five_notes\<rparr>"
  let ?p = "\<lparr>point_id = 6, vector = stub_vector EMBEDDING_DIM 11,
             payload = [(''text'', ''hello world'')]\<rparr>"
  have fresh: "upsert_point five_notes ?p = five_notes @ [?p]"
    by (simp add: upsert_point_def five_notes_def stored_note_def)
  have add: "add_note_to_db stub_services ''hello world'' ?w =
      (Inr (), \<lparr>collections = (collections ?w)
         (QDRANT_COLLECTION_NAME \<mapsto> ?c\<lparr>points := five_notes @ [?p]\<rparr>),
       calls = [Count QDRANT_COLLECTION_NAME,
          EmbeddingsCreate [''hello world''] EMBEDDING_MODEL EMBEDDING_DIM,
          Upsert QDRANT_COLLECTION_NAME [?p]]\<rparr>)"
    using add_note_to_db_stores
      [OF collections_notes_store, of stub_services "''hello world''" _ "[]" five_notes]
    by (simp add: stub_embedding calls_notes_store length_five_notes fresh)
  have added: "fst (add_note_to_db stub_services ''hello world'' ?w) = Inr ()"
    by (simp add: add)
  have after: "collections (snd (add_note_to_db stub_services ''hello world'' ?w))
      QDRANT_COLLECTION_NAME = Some (?c\<lparr>points := five_notes @ [?p]\<rparr>)"
    by (simp add: add)
  have room: "length (points (?c\<lparr>points := five_notes @ [?p]\<rparr>)) \<le> 10"
    by (simp add: five_notes_def)
  have texts: "\<forall>p \<in> set (points (?c\<lparr>points := five_notes @ [?p]\<rparr>)).
      map_of (payload p) ''text'' \<noteq> None"
    by (simp add: five_notes_def stored_note_def)
  have find: "fst (list_notes_from_db stub_services None
        (snd (add_note_to_db stub_services ''hello world'' ?w))) =
       Inr [\<lparr>result_text = ''a'', score = None\<rparr>, \<lparr>result_text = ''b'', score = None\<rparr>,
            \<lparr>result_text = ''c'', score = None\<rparr>, \<lparr>result_text = ''d'', score = None\<rparr>,
            \<lparr>result_text = ''e'', score = None\<rparr>,
            \<lparr>result_text = ''hello world'', score = None\<rparr>]"
  proof -
    have "listed (take 10 (five_notes @ [?p])) [] =
       Inr [\<lparr>result_text = ''a'', score = None\<rparr>, \<lparr>result_text = ''b'', score = None\<rparr>,
            \<lparr>result_text = ''c'', score = None\<rparr>, \<lparr>result_text = ''d'', score = None\<rparr>,
            \<lparr>result_text = ''e'', score = None\<rparr>,
            \<lparr>result_text = ''hello world'', score = None\<rparr>]"
      by (simp add: five_notes_def stored_note_def)
    then show ?thesis
      by (simp add: list_notes_from_db_lists [OF _ after] falsy_def)
  qed
  from added_note_is_listed [OF added after room] find added show ?thesis
    by simp
qed

text \<open>
  The claim as it was stated fails on a collection of ten notes with the ids 1 to 10:
  the add succeeds, with the id 11, and the listing returns the ten older notes.
\<close>

theorem eleventh_note_is_not_listed_counterexample:
  "fst (add_note_to_db stub_services ''hello world'' (notes_store ten_notes)) = Inr ()
   \<and> fst (list_notes_from_db stub_services None
        (snd (add_note_to_db stub_services ''hello world'' (notes_store ten_notes)))) =
       Inr (replicate 10 \<lparr>result_text = ''memo'', score = None\<rparr>)
   \<and> \<lparr>result_text = ''hello world'', score = None\<rparr>
       \<notin> set (replicate 10 \<lparr>result_text = ''memo'', score = None\<rparr>)"
proof -
  let ?w = "notes_store ten_notes"
  let ?c = "\<lparr>vectors_size = EMBEDDING_DIM, vectors_distance = COSINE, points = ten_notes\<rparr>"
  let ?p = "\<lparr>point_id = 11, vector = stub_vector EMBEDDING_DIM 11,
             payload = [(''text'', ''hello world'')]\<rparr>"
  have fresh: "upsert_point ten_notes ?p = ten_notes @ [?p]"
    by (simp add: upsert_point_def ten_notes_def stored_note_def)
  have add: "add_note_to_db stub_services ''hello world'' ?w =
      (Inr (), \<lparr>collections = (collections ?w)
         (QDRANT_COLLECTION_NAME \<mapsto> ?c\<lparr>points := ten_notes @ [?p]\<rparr>),
       calls = [Count QDRANT_COLLECTION_NAME,
          EmbeddingsCreate [''hello world''] EMBEDDING_MODEL EMBEDDING_DIM,
          Upsert QDRANT_COLLECTION_NAME [?p]]\<rparr>)"
    using add_note_to_db_stores
      [OF collections_notes_store, of stub_services "''hello world''" _ "[]" ten_notes]
    by (simp add: stub_embedding calls_notes_store length_ten_notes fresh)
  have after: "collections (snd (add_note_to_db stub_services ''hello world'' ?w))
      QDRANT_COLLECTION_NAME = Some (?c\<lparr>points := ten_notes @ [?p]\<rparr>)"
    by (simp add: add)
  have "fst (list_notes_from_db stub_services None
        (snd (add_note_to_db stub_services ''hello world'' ?w))) =
       Inr (replicate 10 \<lparr>result_text = ''memo'', score = None\<rparr>)"
    by (simp add: list_notes_from_db_lists [OF _ after] falsy_def length_ten_notes
        listed_ten_notes)
  then show ?thesis
    by (simp add: add)
qed

subsection \<open>What the bootstrap does, case by case\<close>

lemma assure_db_collection_exists_creates:
  "collections w QDRANT_COLLECTION_NAME = None \<Longrightarrow>
   assure_db_collection_exists w =
     (Inr (),
      \<lparr>collections = (collections w)
         (QDRANT_COLLECTION_NAME \<mapsto>
            \<lparr>vectors_size = EMBEDDING_DIM, vectors_distance = COSINE, points = []\<rparr>),
       calls = calls w @
         [CollectionExists QDRANT_COLLECTION_NAME,
          CreateCollection QDRANT_COLLECTION_NAME EMBEDDING_DIM COSINE]\<rparr>)"
  by (simp add: assure_db_collection_exists_def collection_exists_def create_collection_def
      issue_def)

lemma assure_db_collection_exists_present:
  "collections w QDRANT_COLLECTION_NAME = Some c \<Longrightarrow>
   assure_db_collection_exists w = (Inr (), issue (CollectionExists QDRANT_COLLECTION_NAME) w)"
  by (simp add: assure_db_collection_exists_def collection_exists_def)

lemma bootstrap_times_present:
  "collections w QDRANT_COLLECTION_NAME = Some c \<Longrightarrow>
   bootstrap_times n w =
     (replicate n (Inr ()),
      w\<lparr>calls := calls w @ replicate n (CollectionExists QDRANT_COLLECTION_NAME)\<rparr>)"
proof (induction n arbitrary: w)
  case 0
  then show ?case by simp
next
  case (Suc n)
  let ?w1 = "issue (CollectionExists QDRANT_COLLECTION_NAME) w"
  have "collections ?w1 QDRANT_COLLECTION_NAME = Some c"
    using Suc.prems by (simp add: collections_issue)
  from Suc.IH [OF this] show ?case
    by (simp add: assure_db_collection_exists_present [OF Suc.prems] issue_def
        replicate_append_same)
qed

lemma filter_is_creation_replicate:
  "filter is_creation (replicate n (CollectionExists name)) = []"
  by (induction n) simp_all

subsection \<open>C4: the bootstrap is idempotent\<close>

text \<open>
  Claim C4.  When the collection is absent, \<^verbatim>\<open>assure_db_collection_exists\<close>
  returns without an error after one existence check and one creation request, for
  vectors of size 3072 with the cosine distance, and the collection is there, empty.
  When the collection is present, it returns without an error after the existence
  check alone and leaves the store as it was.  Hence \<open>n\<close> calls in a row, \<open>n\<close>
  at least 1, starting without the collection, all return without an error and issue
  exactly one creation request between them; starting with the collection, they issue
  none.
\<close>

theorem assure_db_collection_exists_idempotent:
  "(collections w QDRANT_COLLECTION_NAME = None \<longrightarrow>
      fst (assure_db_collection_exists w) = Inr ()
      \<and> new_calls w (snd (assure_db_collection_exists w)) =
          [CollectionExists QDRANT_COLLECTION_NAME,
           CreateCollection QDRANT_COLLECTION_NAME 3072 COSINE]
      \<and> collections (snd (assure_db_collection_exists w)) =
          (collections w)(QDRANT_COLLECTION_NAME \<mapsto>
             \<lparr>vectors_size = 3072, vectors_distance = COSINE, points = []\<rparr>))
   \<and> (collections w QDRANT_COLLECTION_NAME \<noteq> None \<longrightarrow>
      fst (assure_db_collection_exists w) = Inr ()
      \<and> new_calls w (snd (assure_db_collection_exists w)) =
          [CollectionExists QDRANT_COLLECTION_NAME]
      \<and> collections (snd (assure_db_collection_exists w)) = collections w)
   \<and> (collections w QDRANT_COLLECTION_NAME = None \<longrightarrow> 0 < n \<longrightarrow>
      fst (bootstrap_times n w) = replicate n (Inr ())
      \<and> filter is_creation (new_calls w (snd (bootstrap_times n w))) =
          [CreateCollection QDRANT_COLLECTION_NAME 3072 COSINE])
   \<and> (collections w QDRANT_COLLECTION_NAME \<noteq> None \<longrightarrow>
      fst (bootstrap_times n w) = replicate n (Inr ())
      \<and> filter is_creation (new_calls w (snd (bootstrap_times n w))) = [])"
proof (intro conjI impI)
  assume absent: "collections w QDRANT_COLLECTION_NAME = None"
  note first = assure_db_collection_exists_creates [OF absent]
  show "fst (assure_db_collection_exists w) = Inr ()"
    by (simp add: first)
  show "new_calls w (snd (assure_db_collection_exists w)) =
      [CollectionExists QDRANT_COLLECTION_NAME,
       CreateCollection QDRANT_COLLECTION_NAME 3072 COSINE]"
    by (simp add: first new_calls_def EMBEDDING_DIM_def)
  show "collections (snd (assure_db_collection_exists w)) =
      (collections w)(QDRANT_COLLECTION_NAME \<mapsto>
         \<lparr>vectors_size = 3072, vectors_distance = COSINE, points = []\<rparr>)"
    by (simp add: first EMBEDDING_DIM_def)
  assume "0 < n"
  then obtain m where n: "n = Suc m"
    by (cases n) simp_all
  let ?w1 = "snd (assure_db_collection_exists w)"
  have present1: "collections ?w1 QDRANT_COLLECTION_NAME =
      Some \<lparr>vectors_size = EMBEDDING_DIM, vectors_distance = COSINE, points = []\<rparr>"
    by (simp add: first)
  have run: "bootstrap_times n w =
      (replicate n (Inr ()),
       ?w1\<lparr>calls := calls ?w1 @ replicate m (CollectionExists QDRANT_COLLECTION_NAME)\<rparr>)"
    using bootstrap_times_present [OF present1, of m]
    by (simp add: n first)
  show "fst (bootstrap_times n w) = replicate n (Inr ())"
    by (simp add: run)
  show "filter is_creation (new_calls w (snd (bootstrap_times n w))) =
      [CreateCollection QDRANT_COLLECTION_NAME 3072 COSINE]"
    by (simp add: run first new_calls_def filter_is_creation_replicate EMBEDDING_DIM_def)
next
  assume "collections w QDRANT_COLLECTION_NAME \<noteq> None"
  then obtain c where present: "collections w QDRANT_COLLECTION_NAME = Some c"
    by blast
  note first = assure_db_collection_exists_present [OF present]
  show "fst (assure_db_collection_exists w) = Inr ()"
    by (simp add: first)
  show "new_calls w (snd (assure_db_collection_exists w)) =
      [CollectionExists QDRANT_COLLECTION_NAME]"
    by (simp add: first new_calls_def calls_issue)
  show "collections (snd (assure_db_collection_exists w)) = collections w"
    by (simp add: first collections_issue)
  show "fst (bootstrap_times n w) = replicate n (Inr ())"
    by (simp add: bootstrap_times_present [OF present])
  show "filter is_creation (new_calls w (snd (bootstrap_times n w))) = []"
    by (simp add: bootstrap_times_present [OF present] new_calls_def
        filter_is_creation_replicate)
qed

text \<open>Three calls on a store without the collection, and on a store that has it.\<close>

theorem assure_db_collection_exists_idempotent_witness:
  "collections empty_store QDRANT_COLLECTION_NAME = None
   \<and> fst (assure_db_collection_exists empty_store) = Inr ()
   \<and> calls (snd (assure_db_collection_exists empty_store)) =
       [CollectionExists QDRANT_COLLECTION_NAME,
        CreateCollection QDRANT_COLLECTION_NAME 3072 COSINE]
   \<and> fst (bootstrap_times 3 empty_store) = replicate 3 (Inr ())
   \<and> filter is_creation (calls (snd (bootstrap_times 3 empty_store))) =
       [CreateCollection QDRANT_COLLECTION_NAME 3072 COSINE]
   \<and> collections (notes_store five_notes) QDRANT_COLLECTION_NAME \<noteq> None
   \<and> fst (assure_db_collection_exists (notes_store five_notes)) = Inr ()
   \<and> calls (snd (assure_db_collection_exists (notes_store five_notes))) =
       [CollectionExists QDRANT_COLLECTION_NAME]
   \<and> collections (snd (assure_db_collection_exists (notes_store five_notes))) =
       collections (notes_store five_notes)
   \<and> filter is_creation (calls (snd (bootstrap_times 3 (notes_store five_notes)))) = []"
proof -
  have absent: "collections empty_store QDRANT_COLLECTION_NAME = None"
    by (simp add: empty_store_def)
  have fresh: "new_calls empty_store w = calls w" for w
    by (simp add: new_calls_def empty_store_def)
  have stored: "new_calls (notes_store five_notes) w = calls w" for w
    by (simp add: new_calls_def calls_notes_store)
  show ?thesis
    using assure_db_collection_exists_idempotent [of empty_store 3]
      assure_db_collection_exists_idempotent [of "notes_store five_notes" 3]
    by (simp add: absent fresh stored collections_notes_store)
qed

subsection \<open>The search branch of list_notes_from_db\<close>

lemma search_present:
  "collections w name = Some c \<Longrightarrow>
   search sv name v limit w =
     (Inr (take limit
            (sort_key (\<lambda>h. - snd h) (map (\<lambda>p. (p, similarity sv v (vector p))) (points c)))),
      issue (Search name v limit) w)"
  by (simp add: search_def)

lemma list_notes_from_db_no_data:
  "q \<noteq> [] \<Longrightarrow> embeddings_create sv [q] EMBEDDING_MODEL EMBEDDING_DIM = Some [] \<Longrightarrow>
   list_notes_from_db sv (Some q) w =
     (Inl IndexError, issue (EmbeddingsCreate [q] EMBEDDING_MODEL EMBEDDING_DIM) w)"
  by (simp add: list_notes_from_db_def falsy_def get_embedding_no_data)

lemma list_notes_from_db_searches_absent:
  "q \<noteq> [] \<Longrightarrow> embeddings_create sv [q] EMBEDDING_MODEL EMBEDDING_DIM = Some (v # rest) \<Longrightarrow>
   collections w QDRANT_COLLECTION_NAME = None \<Longrightarrow>
   list_notes_from_db sv (Some q) w =
     (Inl StoreError,
      issue (Search QDRANT_COLLECTION_NAME v 10)
        (issue (EmbeddingsCreate [q] EMBEDDING_MODEL EMBEDDING_DIM) w))"
  by (simp add: list_notes_from_db_def falsy_def get_embedding_answers search_def
      collections_issue)

lemma list_notes_from_db_searches:
  "q \<noteq> [] \<Longrightarrow> embeddings_create sv [q] EMBEDDING_MODEL EMBEDDING_DIM = Some (v # rest) \<Longrightarrow>
   collections w QDRANT_COLLECTION_NAME = Some c \<Longrightarrow>
   list_notes_from_db sv (Some q) w =
     (scored
        (take 10
           (sort_key (\<lambda>h. - snd h) (map (\<lambda>p. (p, similarity sv v (vector p))) (points c))))
        [],
      issue (Search QDRANT_COLLECTION_NAME v 10)
        (issue (EmbeddingsCreate [q] EMBEDDING_MODEL EMBEDDING_DIM) w))"
  by (simp add: list_notes_from_db_def falsy_def get_embedding_answers search_def
      collections_issue)

lemma scored_Inr:
  "scored hs acc = Inr rs \<Longrightarrow>
   \<exists>new. rs = acc @ new \<and>
     list_all2 (\<lambda>h r. map_of (payload (fst h)) ''text'' = Some (result_text r)
                  \<and> score r = Some (snd h))
       hs new"
proof (induction hs arbitrary: acc)
  case Nil
  then show ?case by simp
next
  case (Cons h hs)
  from Cons.prems obtain t where t: "map_of (payload (fst h)) ''text'' = Some t"
    and rest: "scored hs (acc @ [\<lparr>result_text = t, score = Some (snd h)\<rparr>]) = Inr rs"
    by (auto split: option.splits)
  from Cons.IH [OF rest] obtain new where
    "rs = (acc @ [\<lparr>result_text = t, score = Some (snd h)\<rparr>]) @ new"
    "list_all2 (\<lambda>h r. map_of (payload (fst h)) ''text'' = Some (result_text r)
                  \<and> score r = Some (snd h))
       hs new"
    by blast
  with t show ?case
    by (intro exI [of _ "\<lparr>result_text = t, score = Some (snd h)\<rparr> # new"]) simp
qed

lemma scored_length: "scored hs acc = Inr rs \<Longrightarrow> length rs = length acc + length hs"
  by (induction hs arbitrary: acc) (auto split: option.splits)

lemma scored_total:
  "\<forall>h \<in> set hs. map_of (payload (fst h)) ''text'' \<noteq> None \<Longrightarrow> \<exists>rs. scored hs acc = Inr rs"
  by (induction hs arbitrary: acc) auto

lemma sort_key_constant: "\<forall>x \<in> set xs. f x = k \<Longrightarrow> sort_key f xs = xs"
proof (induction xs)
  case Nil
  then show ?case by simp
next
  case (Cons x xs)
  then have "sort_key f (x # xs) = insort_key f x xs"
    by simp
  also have "\<dots> = x # xs"
    using Cons.prems by (cases xs) simp_all
  finally show ?case .
qed

lemma scored_memos:
  "\<forall>h \<in> set hs. map_of (payload (fst h)) ''text'' = Some ''memo'' \<and> snd h = s \<Longrightarrow>
   scored hs acc = Inr (acc @ replicate (length hs) \<lparr>result_text = ''memo'', score = Some s\<rparr>)"
  by (induction hs arbitrary: acc) (simp_all add: replicate_app_Cons_same)

lemma fifteen_notes_memos:
  "\<forall>p \<in> set fifteen_notes. map_of (payload p) ''text'' = Some ''memo''
      \<and> vector p = stub_vector EMBEDDING_DIM 4"
  by (simp add: fifteen_notes_def ten_notes_def stored_note_def)

lemma length_fifteen_notes: "length fifteen_notes = 15"
  by (simp add: fifteen_notes_def ten_notes_def)

lemma list_fifteen_notes:
  "list_notes_from_db sv None (notes_store fifteen_notes) =
     (Inr (replicate 10 \<lparr>result_text = ''memo'', score = None\<rparr>),
      issue (Scroll QDRANT_COLLECTION_NAME 10) (notes_store fifteen_notes))"
  by (simp add: list_notes_from_db_lists [OF _ collections_notes_store] falsy_def
      take_fifteen_notes listed_ten_notes)

lemma search_fifteen_notes:
  "fst (list_notes_from_db stub_services (Some ''query'') (notes_store fifteen_notes)) =
     Inr (replicate 10 \<lparr>result_text = ''memo'', score = Some (- 1)\<rparr>)"
proof -
  let ?v = "stub_vector EMBEDDING_DIM 5"
  let ?hits = "map (\<lambda>p. (p, similarity stub_services ?v (vector p))) fifteen_notes"
  have scores: "\<forall>h \<in> set ?hits. map_of (payload (fst h)) ''text'' = Some ''memo'' \<and> snd h = - 1"
    using fifteen_notes_memos by (auto simp: stub_services_def hd_stub_vector)
  then have "\<forall>h \<in> set ?hits. - snd h = 1"
    by simp
  then have order: "sort_key (\<lambda>h. - snd h) ?hits = ?hits"
    by (rule sort_key_constant)
  have page: "\<forall>h \<in> set (take 10 ?hits).
      map_of (payload (fst h)) ''text'' = Some ''memo'' \<and> snd h = - 1"
    using scores by (meson in_set_takeD)
  have "scored (take 10 ?hits) [] =
      Inr (replicate 10 \<lparr>result_text = ''memo'', score = Some (- 1)\<rparr>)"
    using scored_memos [OF page, of "[]"] by (simp add: length_fifteen_notes)
  then show ?thesis
    using list_notes_from_db_searches
      [OF _ stub_embedding collections_notes_store, of "''query''" fifteen_notes]
    by (simp add: order)
qed

subsection \<open>C5: at most ten results\<close>

text \<open>
  Claim C5.  Whatever the store holds and whatever the query is, absent, empty or not,
  a sequence that \<^verbatim>\<open>list_notes_from_db\<close> returns has at most 10 results.
\<close>

theorem list_notes_from_db_at_most_ten:
  assumes returns: "fst (list_notes_from_db sv query w) = Inr rs"
  shows "length rs \<le> 10"
proof (cases "collections w QDRANT_COLLECTION_NAME")
  case None
  show ?thesis
  proof (cases "falsy query")
    case True
    with returns None show ?thesis
      by (simp add: list_notes_from_db_lists_absent)
  next
    case False
    then obtain q where q: "query = Some q" "q \<noteq> []"
      by (auto simp: falsy_def)
    show ?thesis
    proof (cases "embeddings_create sv [q] EMBEDDING_MODEL EMBEDDING_DIM")
      case none: None
      with returns q show ?thesis
        by (simp add: list_notes_from_db_raises)
    next
      case (Some ds)
      with returns q None show ?thesis
        by (cases ds)
          (simp_all add: list_notes_from_db_no_data list_notes_from_db_searches_absent)
    qed
  qed
next
  case present: (Some c)
  show ?thesis
  proof (cases "falsy query")
    case True
    with returns present have "listed (take 10 (points c)) [] = Inr rs"
      by (simp add: list_notes_from_db_lists)
    from listed_length [OF this] show ?thesis
      by simp
  next
    case False
    then obtain q where q: "query = Some q" "q \<noteq> []"
      by (auto simp: falsy_def)
    show ?thesis
    proof (cases "embeddings_create sv [q] EMBEDDING_MODEL EMBEDDING_DIM")
      case None
      with returns q show ?thesis
        by (simp add: list_notes_from_db_raises)
    next
      case (Some ds)
      show ?thesis
      proof (cases ds)
        case Nil
        with returns q Some show ?thesis
          by (simp add: list_notes_from_db_no_data)
      next
        case (Cons v rest)
        with returns q Some present have
          "scored (take 10 (sort_key (\<lambda>h. - snd h)
             (map (\<lambda>p. (p, similarity sv v (vector p))) (points c)))) [] = Inr rs"
          by (simp add: list_notes_from_db_searches)
        from scored_length [OF this] show ?thesis
          by simp
      qed
    qed
  qed
qed

text \<open>The scenario of the specification: fifteen stored notes, listed and searched.\<close>

theorem list_notes_from_db_at_most_ten_witness:
  "count QDRANT_COLLECTION_NAME (notes_store fifteen_notes) =
     (Inr 15, issue (Count QDRANT_COLLECTION_NAME) (notes_store fifteen_notes))
   \<and> fst (list_notes_from_db stub_services None (notes_store fifteen_notes)) =
       Inr (replicate 10 \<lparr>result_text = ''memo'', score = None\<rparr>)
   \<and> length (replicate 10 \<lparr>result_text = ''memo'', score = None\<rparr>) \<le> 10
   \<and> fst (list_notes_from_db stub_services (Some ''query'') (notes_store fifteen_notes)) =
       Inr (replicate 10 \<lparr>result_text = ''memo'', score = Some (- 1)\<rparr>)
   \<and> length (replicate 10 \<lparr>result_text = ''memo'', score = Some (- 1)\<rparr>) \<le> 10"
proof -
  have listing: "fst (list_notes_from_db stub_services None (notes_store fifteen_notes)) =
      Inr (replicate 10 \<lparr>result_text = ''memo'', score = None\<rparr>)"
    by (simp add: list_fifteen_notes)
  from list_notes_from_db_at_most_ten [OF listing]
    list_notes_from_db_at_most_ten [OF search_fifteen_notes]
  show ?thesis
    by (simp add: listing search_fifteen_notes count_def collections_notes_store
        length_fifteen_notes)
qed

subsection \<open>C6: the search branch\<close>

lemma search_hits_descending:
  "sorted_wrt (\<lambda>a b. snd b \<le> snd a)
     (take limit (sort_key (\<lambda>h. - snd h) (hs :: (point \<times> real) list)))"
proof -
  have "sorted (map (\<lambda>h. - snd h) (sort_key (\<lambda>h. - snd h) hs))"
    by (rule sorted_sort_key)
  then have "sorted_wrt (\<lambda>a b. snd b \<le> snd a) (sort_key (\<lambda>h. - snd h) hs)"
    by (simp add: sorted_map)
  then show ?thesis
    by (rule sorted_wrt_take)
qed

lemma list_all2_right_member:
  "list_all2 P xs ys \<Longrightarrow> y \<in> set ys \<Longrightarrow> \<exists>x \<in> set xs. P x y"
  by (induction rule: list_all2_induct) auto

lemma sorted_wrt_list_all2:
  assumes "list_all2 P xs ys" and "sorted_wrt R xs"
    and "\<And>x y x' y'. P x y \<Longrightarrow> P x' y' \<Longrightarrow> R x x' \<Longrightarrow> S y y'"
  shows "sorted_wrt S ys"
  using assms(1,2)
proof (induction rule: list_all2_induct)
  case Nil
  then show ?case by simp
next
  case (Cons x xs y ys)
  have "S y y'" if "y' \<in> set ys" for y'
  proof -
    from list_all2_right_member [OF Cons.hyps(2) that] obtain x'
      where "x' \<in> set xs" "P x' y'" by blast
    with Cons.prems Cons.hyps(1) show ?thesis
      by (auto intro: assms(3))
  qed
  with Cons show ?case by simp
qed

lemma search_recipe_notes:
  "list_notes_from_db stub_services (Some ''baking dessert'') (notes_store recipe_notes) =
     (Inr [\<lparr>result_text = ''apple pie recipe'', score = Some (- 2)\<rparr>,
           \<lparr>result_text = ''car engine repair'', score = Some (- 3)\<rparr>],
      issue (Search QDRANT_COLLECTION_NAME (stub_vector EMBEDDING_DIM 14) 10)
        (issue (EmbeddingsCreate [''baking dessert''] EMBEDDING_MODEL EMBEDDING_DIM)
           (notes_store recipe_notes)))"
proof -
  have "scored (take 10 (sort_key (\<lambda>h. - snd h)
          (map (\<lambda>p. (p, similarity stub_services (stub_vector EMBEDDING_DIM 14) (vector p)))
             recipe_notes))) [] =
      Inr [\<lparr>result_text = ''apple pie recipe'', score = Some (- 2)\<rparr>,
           \<lparr>result_text = ''car engine repair'', score = Some (- 3)\<rparr>]"
    by (simp add: recipe_notes_def stored_note_def stub_services_def hd_stub_vector)
  then show ?thesis
    using list_notes_from_db_searches
      [OF _ stub_embedding collections_notes_store, of "''baking dessert''" recipe_notes]
    by simp
qed

text \<open>
  Claim C6.  When \<^verbatim>\<open>list_notes_from_db\<close> returns a sequence for a query that is
  not empty, it has requested the embedding of the query and then issued one search,
  with that embedding and the limit 10, and nothing else; the sequence has one result
  for each hit of the store's answer, in the same order, with the text of the hit's
  point and the score the store reported, which is the similarity of the query vector
  and the point's vector; and the scores of the sequence descend.  It does return a
  sequence when the provider answers with an embedding, the collection exists and
  every point of it carries a text in its payload.
\<close>

theorem list_notes_from_db_search_ranked:
  assumes nonempty: "q \<noteq> []"
  shows "(\<forall>rs. fst (list_notes_from_db sv (Some q) w) = Inr rs \<longrightarrow>
      (\<exists>v rest c hits.
          embeddings_create sv [q] EMBEDDING_MODEL EMBEDDING_DIM = Some (v # rest)
        \<and> collections w QDRANT_COLLECTION_NAME = Some c
        \<and> new_calls w (snd (list_notes_from_db sv (Some q) w)) =
            [EmbeddingsCreate [q] EMBEDDING_MODEL EMBEDDING_DIM,
             Search QDRANT_COLLECTION_NAME v 10]
        \<and> fst (search sv QDRANT_COLLECTION_NAME v 10 w) = Inr hits
        \<and> (\<forall>h \<in> set hits.
              fst h \<in> set (points c) \<and> snd h = similarity sv v (vector (fst h)))
        \<and> list_all2 (\<lambda>h r. map_of (payload (fst h)) ''text'' = Some (result_text r)
                       \<and> score r = Some (snd h)) hits rs
        \<and> sorted_wrt (\<lambda>a b. \<exists>x y. score a = Some x \<and> score b = Some y \<and> y \<le> x) rs))
    \<and> (\<forall>v rest c.
          embeddings_create sv [q] EMBEDDING_MODEL EMBEDDING_DIM = Some (v # rest) \<longrightarrow>
          collections w QDRANT_COLLECTION_NAME = Some c \<longrightarrow>
          (\<forall>p \<in> set (points c). map_of (payload p) ''text'' \<noteq> None) \<longrightarrow>
          (\<exists>rs. fst (list_notes_from_db sv (Some q) w) = Inr rs))"
proof (intro conjI allI impI)
  fix rs
  assume returns: "fst (list_notes_from_db sv (Some q) w) = Inr rs"
  let ?thesis = "\<exists>v rest c hits.
      embeddings_create sv [q] EMBEDDING_MODEL EMBEDDING_DIM = Some (v # rest)
    \<and> collections w QDRANT_COLLECTION_NAME = Some c
    \<and> new_calls w (snd (list_notes_from_db sv (Some q) w)) =
        [EmbeddingsCreate [q] EMBEDDING_MODEL EMBEDDING_DIM,
         Search QDRANT_COLLECTION_NAME v 10]
    \<and> fst (search sv QDRANT_COLLECTION_NAME v 10 w) = Inr hits
    \<and> (\<forall>h \<in> set hits. fst h \<in> set (points c) \<and> snd h = similarity sv v (vector (fst h)))
    \<and> list_all2 (\<lambda>h r. map_of (payload (fst h)) ''text'' = Some (result_text r)
                   \<and> score r = Some (snd h)) hits rs
    \<and> sorted_wrt (\<lambda>a b. \<exists>x y. score a = Some x \<and> score b = Some y \<and> y \<le> x) rs"
  show ?thesis
  proof (cases "embeddings_create sv [q] EMBEDDING_MODEL EMBEDDING_DIM")
    case None
    with returns nonempty show ?thesis
      by (simp add: list_notes_from_db_raises)
  next
    case (Some ds)
    show ?thesis
    proof (cases ds)
      case Nil
      with returns nonempty Some show ?thesis
        by (simp add: list_notes_from_db_no_data)
    next
      case (Cons v rest)
      with Some have ok:
        "embeddings_create sv [q] EMBEDDING_MODEL EMBEDDING_DIM = Some (v # rest)"
        by simp
      show ?thesis
      proof (cases "collections w QDRANT_COLLECTION_NAME")
        case None
        with returns show ?thesis
          by (simp add: list_notes_from_db_searches_absent [OF nonempty ok])
      next
        case present: (Some c)
        let ?hits = "take 10 (sort_key (\<lambda>h. - snd h)
            (map (\<lambda>p. (p, similarity sv v (vector p))) (points c)))"
        note run = list_notes_from_db_searches [OF nonempty ok present]
        have log: "new_calls w (snd (list_notes_from_db sv (Some q) w)) =
            [EmbeddingsCreate [q] EMBEDDING_MODEL EMBEDDING_DIM,
             Search QDRANT_COLLECTION_NAME v 10]"
          by (simp add: run new_calls_def calls_issue)
        have answer: "fst (search sv QDRANT_COLLECTION_NAME v 10 w) = Inr ?hits"
          by (simp add: search_present [OF present])
        have stored: "\<forall>h \<in> set ?hits.
            fst h \<in> set (points c) \<and> snd h = similarity sv v (vector (fst h))"
          by (auto dest!: in_set_takeD)
        from returns have "scored ?hits [] = Inr rs"
          by (simp add: run)
        from scored_Inr [OF this] have paired:
          "list_all2 (\<lambda>h r. map_of (payload (fst h)) ''text'' = Some (result_text r)
                        \<and> score r = Some (snd h)) ?hits rs"
          by simp
        have "sorted_wrt (\<lambda>a b. \<exists>x y. score a = Some x \<and> score b = Some y \<and> y \<le> x) rs"
          by (rule sorted_wrt_list_all2 [OF paired search_hits_descending]) simp
        with ok present log answer stored paired show ?thesis
          by blast
      qed
    qed
  qed
next
  fix v rest c
  assume ok: "embeddings_create sv [q] EMBEDDING_MODEL EMBEDDING_DIM = Some (v # rest)"
    and present: "collections w QDRANT_COLLECTION_NAME = Some c"
    and texts: "\<forall>p \<in> set (points c). map_of (payload p) ''text'' \<noteq> None"
  let ?hits = "take 10 (sort_key (\<lambda>h. - snd h)
      (map (\<lambda>p. (p, similarity sv v (vector p))) (points c)))"
  have "\<forall>h \<in> set ?hits. map_of (payload (fst h)) ''text'' \<noteq> None"
    using texts by (auto dest!: in_set_takeD)
  from scored_total [OF this, of "[]"]
  show "\<exists>rs. fst (list_notes_from_db sv (Some q) w) = Inr rs"
    by (simp add: list_notes_from_db_searches [OF nonempty ok present])
qed

text \<open>
  The ranking scenario of the specification: the note about the car is stored first,
  the note about the pie is closer to the query and comes first in the answer.
\<close>

theorem list_notes_from_db_search_ranked_witness:
  "fst (list_notes_from_db stub_services (Some ''baking dessert'') (notes_store recipe_notes)) =
     Inr [\<lparr>result_text = ''apple pie recipe'', score = Some (- 2)\<rparr>,
          \<lparr>result_text = ''car engine repair'', score = Some (- 3)\<rparr>]
   \<and> new_calls (notes_store recipe_notes)
        (snd (list_notes_from_db stub_services (Some ''baking dessert'')
           (notes_store recipe_notes))) =
       [EmbeddingsCreate [''baking dessert''] EMBEDDING_MODEL EMBEDDING_DIM,
        Search QDRANT_COLLECTION_NAME (stub_vector EMBEDDING_DIM 14) 10]
   \<and> sorted_wrt (\<lambda>a b. \<exists>x y. score a = Some x \<and> score b = Some y \<and> y \<le> x)
        [\<lparr>result_text = ''apple pie recipe'', score = Some (- 2)\<rparr>,
         \<lparr>result_text = ''car engine repair'', score = Some (- 3)\<rparr>]"
proof -
  have returns:
    "fst (list_notes_from_db stub_services (Some ''baking dessert'') (notes_store recipe_notes)) =
       Inr [\<lparr>result_text = ''apple pie recipe'', score = Some (- 2)\<rparr>,
            \<lparr>result_text = ''car engine repair'', score = Some (- 3)\<rparr>]"
    by (simp add: search_recipe_notes)
  from list_notes_from_db_search_ranked
    [of "''baking dessert''" stub_services "notes_store recipe_notes"] returns
  show ?thesis
    by (simp add: search_recipe_notes stub_embedding new_calls_def calls_issue)
qed

subsection \<open>C7: the listing branch\<close>

text \<open>
  Claim C7.  For a query that is absent or the empty string,
  \<^verbatim>\<open>list_notes_from_db\<close> issues one request, the scroll with the limit 10: no
  embedding is requested and no search is issued.  Every result of a sequence it
  returns has no score.
\<close>

theorem list_notes_from_db_unfiltered:
  assumes unfiltered: "query = None \<or> query = Some ''''"
  shows "new_calls w (snd (list_notes_from_db sv query w)) = [Scroll QDRANT_COLLECTION_NAME 10]
       \<and> filter (\<lambda>c. is_embedding c \<or> is_search c)
            (new_calls w (snd (list_notes_from_db sv query w))) = []
       \<and> (\<forall>rs. fst (list_notes_from_db sv query w) = Inr rs \<longrightarrow>
             (\<forall>r \<in> set rs. score r = None))"
proof -
  from unfiltered have falsy: "falsy query"
    by (simp add: falsy_def)
  show ?thesis
  proof (cases "collections w QDRANT_COLLECTION_NAME")
    case None
    then show ?thesis
      by (simp add: list_notes_from_db_lists_absent [OF falsy] new_calls_def calls_issue)
  next
    case (Some c)
    note run = list_notes_from_db_lists [OF falsy Some]
    have "score r = None"
      if "fst (list_notes_from_db sv query w) = Inr rs" and "r \<in> set rs" for rs r
    proof -
      from that(1) have "listed (take 10 (points c)) [] = Inr rs"
        by (simp add: run)
      from listed_Inr [OF this] have
        "list_all2 (\<lambda>p r. map_of (payload p) ''text'' = Some (result_text r) \<and> score r = None)
           (take 10 (points c)) rs"
        by simp
      from list_all2_right_member [OF this that(2)] show ?thesis
        by blast
    qed
    then show ?thesis
      by (simp add: run new_calls_def calls_issue)
  qed
qed

lemma list_five_notes:
  assumes falsy: "falsy query"
  shows "fst (list_notes_from_db sv query (notes_store five_notes)) =
     Inr [\<lparr>result_text = ''a'', score = None\<rparr>, \<lparr>result_text = ''b'', score = None\<rparr>,
          \<lparr>result_text = ''c'', score = None\<rparr>, \<lparr>result_text = ''d'', score = None\<rparr>,
          \<lparr>result_text = ''e'', score = None\<rparr>]"
proof -
  have "listed (take 10 five_notes) [] =
     Inr [\<lparr>result_text = ''a'', score = None\<rparr>, \<lparr>result_text = ''b'', score = None\<rparr>,
          \<lparr>result_text = ''c'', score = None\<rparr>, \<lparr>result_text = ''d'', score = None\<rparr>,
          \<lparr>result_text = ''e'', score = None\<rparr>]"
    by (simp add: five_notes_def stored_note_def)
  then show ?thesis
    by (simp add: list_notes_from_db_lists [OF falsy collections_notes_store])
qed

text \<open>An absent query and an empty query on the store of five notes.\<close>

theorem list_notes_from_db_unfiltered_witness:
  "new_calls (notes_store five_notes)
     (snd (list_notes_from_db stub_services None (notes_store five_notes))) =
     [Scroll QDRANT_COLLECTION_NAME 10]
   \<and> new_calls (notes_store five_notes)
     (snd (list_notes_from_db stub_services (Some '''') (notes_store five_notes))) =
     [Scroll QDRANT_COLLECTION_NAME 10]
   \<and> fst (list_notes_from_db stub_services None (notes_store five_notes)) =
     Inr [\<lparr>result_text = ''a'', score = None\<rparr>, \<lparr>result_text = ''b'', score = None\<rparr>,
          \<lparr>result_text = ''c'', score = None\<rparr>, \<lparr>result_text = ''d'', score = None\<rparr>,
          \<lparr>result_text = ''e'', score = None\<rparr>]
   \<and> fst (list_notes_from_db stub_services (Some '''') (notes_store five_notes)) =
     Inr [\<lparr>result_text = ''a'', score = None\<rparr>, \<lparr>result_text = ''b'', score = None\<rparr>,
          \<lparr>result_text = ''c'', score = None\<rparr>, \<lparr>result_text = ''d'', score = None\<rparr>,
          \<lparr>result_text = ''e'', score = None\<rparr>]
   \<and> list_all (\<lambda>r. score r = None)
       (projr (fst (list_notes_from_db stub_services None (notes_store five_notes))))"
  using list_notes_from_db_unfiltered [of None "notes_store five_notes" stub_services]
    list_notes_from_db_unfiltered [of "Some ''''" "notes_store five_notes" stub_services]
  by (simp add: list_five_notes falsy_def)

subsection \<open>C8: the empty collection\<close>

text \<open>
  Claim C8.  On a collection without points, \<^verbatim>\<open>list_notes_from_db\<close> with an absent
  query returns the empty sequence, not an error.
\<close>

theorem list_notes_from_db_empty:
  assumes present: "collections w QDRANT_COLLECTION_NAME = Some c"
    and empty: "points c = []"
  shows "fst (list_notes_from_db sv None w) = Inr []"
  using empty by (simp add: list_notes_from_db_lists [OF _ present] falsy_def)

text \<open>The collection as the bootstrap creates it.\<close>

theorem list_notes_from_db_empty_witness:
  "collections (snd (assure_db_collection_exists empty_store)) QDRANT_COLLECTION_NAME =
     Some \<lparr>vectors_size = EMBEDDING_DIM, vectors_distance = COSINE, points = []\<rparr>
   \<and> fst (list_notes_from_db stub_services None (snd (assure_db_collection_exists empty_store))) =
       Inr []"
proof -
  have absent: "collections empty_store QDRANT_COLLECTION_NAME = None"
    by (simp add: empty_store_def)
  have created:
    "collections (snd (assure_db_collection_exists empty_store)) QDRANT_COLLECTION_NAME =
       Some \<lparr>vectors_size = EMBEDDING_DIM, vectors_distance = COSINE, points = []\<rparr>"
    by (simp add: assure_db_collection_exists_creates [OF absent])
  from list_notes_from_db_empty [OF created] created show ?thesis
    by simp
qed

subsection \<open>C9: the dimension of the vectors\<close>

lemma add_note_to_db_log:
  "new_calls w (snd (add_note_to_db sv t w)) = [Count QDRANT_COLLECTION_NAME]
   \<or> new_calls w (snd (add_note_to_db sv t w)) =
       [Count QDRANT_COLLECTION_NAME, EmbeddingsCreate [t] EMBEDDING_MODEL EMBEDDING_DIM]
   \<or> (\<exists>c v rest.
         collections w QDRANT_COLLECTION_NAME = Some c
       \<and> embeddings_create sv [t] EMBEDDING_MODEL EMBEDDING_DIM = Some (v # rest)
       \<and> new_calls w (snd (add_note_to_db sv t w)) =
           [Count QDRANT_COLLECTION_NAME,
            EmbeddingsCreate [t] EMBEDDING_MODEL EMBEDDING_DIM,
            Upsert QDRANT_COLLECTION_NAME
              [\<lparr>point_id = length (points c) + 1, vector = v, payload = [(''text'', t)]\<rparr>]])"
proof (cases "collections w QDRANT_COLLECTION_NAME")
  case None
  then show ?thesis
    by (simp add: add_note_to_db_absent new_calls_def calls_issue)
next
  case present: (Some c)
  show ?thesis
  proof (cases "embeddings_create sv [t] EMBEDDING_MODEL EMBEDDING_DIM")
    case None
    with present show ?thesis
      by (simp add: add_note_to_db_raises new_calls_def calls_issue)
  next
    case (Some ds)
    with present show ?thesis
      by (cases ds)
        (simp_all add: add_note_to_db_no_data add_note_to_db_stores new_calls_def calls_issue)
  qed
qed

lemma assure_db_collection_exists_log:
  "new_calls w (snd (assure_db_collection_exists w)) =
     (if collections w QDRANT_COLLECTION_NAME = None
      then [CollectionExists QDRANT_COLLECTION_NAME,
            CreateCollection QDRANT_COLLECTION_NAME EMBEDDING_DIM COSINE]
      else [CollectionExists QDRANT_COLLECTION_NAME])"
  by (auto simp: assure_db_collection_exists_creates assure_db_collection_exists_present
      new_calls_def calls_issue)

lemma dimension_invariant_collections:
  "collections w' = collections w \<Longrightarrow> dimension_invariant sv w' = dimension_invariant sv w"
  by (simp add: dimension_invariant_def)

lemma list_all_upsert_point:
  "list_all P ps \<Longrightarrow> P p \<Longrightarrow> list_all P (upsert_point ps p)"
  by (auto simp: upsert_point_def list_all_iff)

lemma list_notes_from_db_collections:
  "collections (snd (list_notes_from_db sv query w)) = collections w"
proof (cases "falsy query")
  case True
  then show ?thesis
    by (cases "collections w QDRANT_COLLECTION_NAME")
      (simp_all add: list_notes_from_db_lists list_notes_from_db_lists_absent
        collections_issue)
next
  case False
  then obtain q where q: "query = Some q" "q \<noteq> []"
    by (auto simp: falsy_def)
  show ?thesis
  proof (cases "embeddings_create sv [q] EMBEDDING_MODEL EMBEDDING_DIM")
    case None
    with q show ?thesis
      by (simp add: list_notes_from_db_raises collections_issue)
  next
    case (Some ds)
    show ?thesis
    proof (cases ds)
      case Nil
      with q Some show ?thesis
        by (simp add: list_notes_from_db_no_data collections_issue)
    next
      case (Cons v rest)
      with q Some show ?thesis
        by (cases "collections w QDRANT_COLLECTION_NAME")
          (simp_all add: list_notes_from_db_searches list_notes_from_db_searches_absent
            collections_issue)
    qed
  qed
qed

lemma dimension_invariant_established:
  "collections w QDRANT_COLLECTION_NAME = None \<Longrightarrow>
   dimension_invariant sv (snd (assure_db_collection_exists w))"
  by (simp add: assure_db_collection_exists_creates dimension_invariant_def)

lemma dimension_invariant_assure:
  assumes "dimension_invariant sv w"
  shows "dimension_invariant sv (snd (assure_db_collection_exists w))"
proof -
  from assms obtain c where present: "collections w QDRANT_COLLECTION_NAME = Some c"
    by (auto simp: dimension_invariant_def split: option.splits)
  have "collections (snd (assure_db_collection_exists w)) = collections w"
    by (simp add: assure_db_collection_exists_present [OF present] collections_issue)
  from dimension_invariant_collections [OF this] assms show ?thesis
    by simp
qed

lemma dimension_invariant_add:
  assumes inv: "dimension_invariant sv w"
  shows "dimension_invariant sv (snd (add_note_to_db sv t w))"
proof -
  from inv obtain c where present: "collections w QDRANT_COLLECTION_NAME = Some c"
    and size: "vectors_size c = EMBEDDING_DIM"
    and stored: "list_all (embedded_with sv (vectors_size c)) (points c)"
    by (auto simp: dimension_invariant_def split: option.splits)
  show ?thesis
  proof (cases "embeddings_create sv [t] EMBEDDING_MODEL EMBEDDING_DIM")
    case None
    have "collections (snd (add_note_to_db sv t w)) = collections w"
      by (simp add: add_note_to_db_raises [OF present None] collections_issue)
    from dimension_invariant_collections [OF this] inv show ?thesis
      by simp
  next
    case (Some ds)
    show ?thesis
    proof (cases ds)
      case Nil
      with Some have "collections (snd (add_note_to_db sv t w)) = collections w"
        by (simp add: add_note_to_db_no_data [OF present] collections_issue)
      from dimension_invariant_collections [OF this] inv show ?thesis
        by simp
    next
      case (Cons v rest)
      with Some have ok:
        "embeddings_create sv [t] EMBEDDING_MODEL EMBEDDING_DIM = Some (v # rest)"
        by simp
      let ?p = "\<lparr>point_id = length (points c) + 1, vector = v, payload = [(''text'', t)]\<rparr>"
      have "embedded_with sv (vectors_size c) ?p"
        by (simp add: embedded_with_def size ok)
      with stored have "list_all (embedded_with sv (vectors_size c)) (upsert_point (points c) ?p)"
        by (rule list_all_upsert_point)
      with size show ?thesis
        by (simp add: dimension_invariant_def add_note_to_db_stores [OF present ok])
    qed
  qed
qed

lemma dimension_invariant_add_notes:
  "dimension_invariant sv w \<Longrightarrow> dimension_invariant sv (add_notes sv ts w)"
  by (induction ts arbitrary: w) (simp_all add: dimension_invariant_add)

lemma add_note_to_db_vectors_size:
  assumes present: "collections w QDRANT_COLLECTION_NAME = Some c"
    and sent: "Upsert name ps \<in> set (new_calls w (snd (add_note_to_db sv t w)))"
    and p: "p \<in> set ps"
  shows "\<exists>c'. collections (snd (add_note_to_db sv t w)) QDRANT_COLLECTION_NAME = Some c'
          \<and> vectors_size c' = vectors_size c \<and> p \<in> set (points c')"
proof (cases "embeddings_create sv [t] EMBEDDING_MODEL EMBEDDING_DIM")
  case None
  with sent show ?thesis
    by (simp add: add_note_to_db_raises [OF present] new_calls_def calls_issue)
next
  case (Some ds)
  show ?thesis
  proof (cases ds)
    case Nil
    with Some sent show ?thesis
      by (simp add: add_note_to_db_no_data [OF present] new_calls_def calls_issue)
  next
    case (Cons v rest)
    with Some have ok:
      "embeddings_create sv [t] EMBEDDING_MODEL EMBEDDING_DIM = Some (v # rest)"
      by simp
    let ?p = "\<lparr>point_id = length (points c) + 1, vector = v, payload = [(''text'', t)]\<rparr>"
    from sent p have "p = ?p"
      by (simp add: add_note_to_db_stores [OF present ok] new_calls_def)
    then have "p \<in> set (upsert_point (points c) ?p)"
      by (simp only: upsert_point_member)
    then show ?thesis
      by (simp add: add_note_to_db_stores [OF present ok])
  qed
qed

lemma five_notes_well_dimensioned: "dimension_invariant stub_services (notes_store five_notes)"
  by (simp add: dimension_invariant_def collections_notes_store five_notes_def stored_note_def
      embedded_with_def stub_embedding)

text \<open>
  Claim C9.  Call a store well-dimensioned when the collection exists, its configured
  vector size is \<open>EMBEDDING_DIM\<close>, and the vector of every stored point is the first
  embedding the provider answers for that point's text when asked for as many
  dimensions as the collection is configured for.  The bootstrap of a store without
  the collection makes it well-dimensioned; the bootstrap, \<^verbatim>\<open>add_note_to_db\<close> and
  \<^verbatim>\<open>list_notes_from_db\<close> keep it so, whether they succeed or fail; hence the store
  is well-dimensioned after the bootstrap and any number of adds.  In a collection of
  size \<open>EMBEDDING_DIM\<close>, every point that \<^verbatim>\<open>add_note_to_db\<close> sends comes from a
  request of this run whose \<open>dimensions\<close> is the collection's size, and is stored in
  a collection of that same size.  Every embedding request of
  \<^verbatim>\<open>add_note_to_db\<close> asks for \<open>EMBEDDING_DIM\<close> dimensions, every creation request
  of the bootstrap is for vectors of size \<open>EMBEDDING_DIM\<close>, and \<open>EMBEDDING_DIM\<close> is
  3072.
\<close>

theorem stored_vectors_have_collection_dimension:
  "(collections w0 QDRANT_COLLECTION_NAME = None \<longrightarrow>
      dimension_invariant sv (snd (assure_db_collection_exists w0))
      \<and> dimension_invariant sv (add_notes sv ts (snd (assure_db_collection_exists w0))))
   \<and> (dimension_invariant sv w \<longrightarrow>
      dimension_invariant sv (snd (assure_db_collection_exists w))
      \<and> dimension_invariant sv (snd (add_note_to_db sv t w))
      \<and> dimension_invariant sv (snd (list_notes_from_db sv query w)))
   \<and> (\<forall>c name ps p.
        collections w QDRANT_COLLECTION_NAME = Some c \<longrightarrow>
        vectors_size c = EMBEDDING_DIM \<longrightarrow>
        Upsert name ps \<in> set (new_calls w (snd (add_note_to_db sv t w))) \<longrightarrow>
        p \<in> set ps \<longrightarrow>
          EmbeddingsCreate [t] EMBEDDING_MODEL (vectors_size c)
            \<in> set (new_calls w (snd (add_note_to_db sv t w)))
          \<and> (\<exists>rest. embeddings_create sv [t] EMBEDDING_MODEL (vectors_size c) =
                Some (vector p # rest))
          \<and> (\<exists>c'. collections (snd (add_note_to_db sv t w)) QDRANT_COLLECTION_NAME = Some c'
                \<and> vectors_size c' = vectors_size c \<and> p \<in> set (points c')))
   \<and> (\<forall>name ps p. Upsert name ps \<in> set (new_calls w (snd (add_note_to_db sv t w))) \<longrightarrow>
        p \<in> set ps \<longrightarrow>
          (\<exists>rest. embeddings_create sv [t] EMBEDDING_MODEL EMBEDDING_DIM =
             Some (vector p # rest))
          \<and> EmbeddingsCreate [t] EMBEDDING_MODEL EMBEDDING_DIM
              \<in> set (new_calls w (snd (add_note_to_db sv t w))))
   \<and> (\<forall>input model dimensions.
        EmbeddingsCreate input model dimensions
          \<in> set (new_calls w (snd (add_note_to_db sv t w))) \<longrightarrow>
        dimensions = EMBEDDING_DIM)
   \<and> (\<forall>name vsize metric.
        CreateCollection name vsize metric
          \<in> set (new_calls w0 (snd (assure_db_collection_exists w0))) \<longrightarrow>
        name = QDRANT_COLLECTION_NAME \<and> vsize = EMBEDDING_DIM \<and> metric = COSINE)
   \<and> EMBEDDING_DIM = 3072"
proof -
  have sent: "(\<exists>rest. embeddings_create sv [t] EMBEDDING_MODEL EMBEDDING_DIM =
             Some (vector p # rest))
      \<and> EmbeddingsCreate [t] EMBEDDING_MODEL EMBEDDING_DIM
          \<in> set (new_calls w (snd (add_note_to_db sv t w)))"
    if upsert: "Upsert name ps \<in> set (new_calls w (snd (add_note_to_db sv t w)))"
      and p: "p \<in> set ps" for name ps p
    using add_note_to_db_log [of w sv t]
  proof (elim disjE exE conjE)
    assume "new_calls w (snd (add_note_to_db sv t w)) = [Count QDRANT_COLLECTION_NAME]"
    with upsert show ?thesis by simp
  next
    assume "new_calls w (snd (add_note_to_db sv t w)) =
       [Count QDRANT_COLLECTION_NAME, EmbeddingsCreate [t] EMBEDDING_MODEL EMBEDDING_DIM]"
    with upsert show ?thesis by simp
  next
    fix c :: collection and v rest
    assume ok: "embeddings_create sv [t] EMBEDDING_MODEL EMBEDDING_DIM = Some (v # rest)"
      and log: "new_calls w (snd (add_note_to_db sv t w)) =
           [Count QDRANT_COLLECTION_NAME,
            EmbeddingsCreate [t] EMBEDDING_MODEL EMBEDDING_DIM,
            Upsert QDRANT_COLLECTION_NAME
              [\<lparr>point_id = length (points c) + 1, vector = v, payload = [(''text'', t)]\<rparr>]]"
    from upsert p have "vector p = v"
      unfolding log by auto
    with ok show ?thesis
      unfolding log by simp
  qed
  have established: "dimension_invariant sv (snd (assure_db_collection_exists w0))
      \<and> dimension_invariant sv (add_notes sv ts (snd (assure_db_collection_exists w0)))"
    if "collections w0 QDRANT_COLLECTION_NAME = None"
    using dimension_invariant_established [OF that]
    by (simp add: dimension_invariant_add_notes)
  have preserved: "dimension_invariant sv (snd (assure_db_collection_exists w))
      \<and> dimension_invariant sv (snd (add_note_to_db sv t w))
      \<and> dimension_invariant sv (snd (list_notes_from_db sv query w))"
    if inv: "dimension_invariant sv w"
    using dimension_invariant_assure [OF inv] dimension_invariant_add [OF inv]
      dimension_invariant_collections [OF list_notes_from_db_collections, of sv sv query w] inv
    by simp
  have stored: "EmbeddingsCreate [t] EMBEDDING_MODEL (vectors_size c)
        \<in> set (new_calls w (snd (add_note_to_db sv t w)))
      \<and> (\<exists>rest. embeddings_create sv [t] EMBEDDING_MODEL (vectors_size c) =
            Some (vector p # rest))
      \<and> (\<exists>c'. collections (snd (add_note_to_db sv t w)) QDRANT_COLLECTION_NAME = Some c'
            \<and> vectors_size c' = vectors_size c \<and> p \<in> set (points c'))"
    if present: "collections w QDRANT_COLLECTION_NAME = Some c"
      and size: "vectors_size c = EMBEDDING_DIM"
      and upsert: "Upsert name ps \<in> set (new_calls w (snd (add_note_to_db sv t w)))"
      and p: "p \<in> set ps" for c name ps p
    using sent [OF upsert p] add_note_to_db_vectors_size [OF present upsert p]
    by (simp add: size)
  have requests: "dimensions = EMBEDDING_DIM"
    if "EmbeddingsCreate input model dimensions
      \<in> set (new_calls w (snd (add_note_to_db sv t w)))" for input model dimensions
    using that add_note_to_db_log [of w sv t] by auto
  have creations: "name = QDRANT_COLLECTION_NAME \<and> vsize = EMBEDDING_DIM \<and> metric = COSINE"
    if "CreateCollection name vsize metric
      \<in> set (new_calls w0 (snd (assure_db_collection_exists w0)))" for name vsize metric
    using that by (simp add: assure_db_collection_exists_log split: if_splits)
  have "EMBEDDING_DIM = 3072"
    by (simp add: EMBEDDING_DIM_def)
  with established preserved stored sent requests creations show ?thesis
    by blast
qed

text \<open>
  The bootstrap of a store without the collection, followed by two adds; and one add
  to the store of five notes.  The stub provider's vectors have the length requested.
\<close>

theorem stored_vectors_have_collection_dimension_witness:
  "collections empty_store QDRANT_COLLECTION_NAME = None
   \<and> dimension_invariant stub_services (snd (assure_db_collection_exists empty_store))
   \<and> dimension_invariant stub_services
       (add_notes stub_services [''x'', ''yy''] (snd (assure_db_collection_exists empty_store)))
   \<and> collections
        (add_notes stub_services [''x'', ''yy''] (snd (assure_db_collection_exists empty_store)))
        QDRANT_COLLECTION_NAME =
       Some \<lparr>vectors_size = 3072, vectors_distance = COSINE,
             points =
               [\<lparr>point_id = 1, vector = stub_vector 3072 1, payload = [(''text'', ''x'')]\<rparr>,
                \<lparr>point_id = 2, vector = stub_vector 3072 2, payload = [(''text'', ''yy'')]\<rparr>]\<rparr>
   \<and> embeddings_create stub_services [''yy''] EMBEDDING_MODEL 3072 = Some [stub_vector 3072 2]
   \<and> length (stub_vector 3072 2) = 3072
   \<and> dimension_invariant stub_services (notes_store five_notes)
   \<and> dimension_invariant stub_services
       (snd (add_note_to_db stub_services ''x'' (notes_store five_notes)))
   \<and> Upsert QDRANT_COLLECTION_NAME
        [\<lparr>point_id = 6, vector = stub_vector 3072 1, payload = [(''text'', ''x'')]\<rparr>]
       \<in> set (new_calls (notes_store five_notes)
               (snd (add_note_to_db stub_services ''x'' (notes_store five_notes))))
   \<and> EmbeddingsCreate [''x''] EMBEDDING_MODEL 3072
       \<in> set (new_calls (notes_store five_notes)
               (snd (add_note_to_db stub_services ''x'' (notes_store five_notes))))
   \<and> CreateCollection QDRANT_COLLECTION_NAME 3072 COSINE
       \<in> set (new_calls empty_store (snd (assure_db_collection_exists empty_store)))"
proof -
  let ?w1 = "snd (assure_db_collection_exists empty_store)"
  let ?p1 = "\<lparr>point_id = 1, vector = stub_vector EMBEDDING_DIM 1, payload = [(''text'', ''x'')]\<rparr>"
  let ?p2 = "\<lparr>point_id = 2, vector = stub_vector EMBEDDING_DIM 2, payload = [(''text'', ''yy'')]\<rparr>"
  let ?c = "\<lparr>vectors_size = EMBEDDING_DIM, vectors_distance = COSINE, points = []\<rparr>"
  have absent: "collections empty_store QDRANT_COLLECTION_NAME = None"
    by (simp add: empty_store_def)
  have present1: "collections ?w1 QDRANT_COLLECTION_NAME = Some ?c"
    by (simp add: assure_db_collection_exists_creates [OF absent])
  let ?w2 = "snd (add_note_to_db stub_services ''x'' ?w1)"
  have present2: "collections ?w2 QDRANT_COLLECTION_NAME = Some (?c\<lparr>points := [?p1]\<rparr>)"
    using add_note_to_db_stores [OF present1 stub_embedding, of "''x''"]
    by (simp add: upsert_point_def)
  let ?w3 = "snd (add_note_to_db stub_services ''yy'' ?w2)"
  have "collections ?w3 QDRANT_COLLECTION_NAME = Some (?c\<lparr>points := [?p1, ?p2]\<rparr>)"
    using add_note_to_db_stores [OF present2 stub_embedding, of "''yy''"]
    by (simp add: upsert_point_def)
  then have stored: "collections (add_notes stub_services [''x'', ''yy''] ?w1)
      QDRANT_COLLECTION_NAME =
     Some \<lparr>vectors_size = 3072, vectors_distance = COSINE,
           points =
             [\<lparr>point_id = 1, vector = stub_vector 3072 1, payload = [(''text'', ''x'')]\<rparr>,
              \<lparr>point_id = 2, vector = stub_vector 3072 2, payload = [(''text'', ''yy'')]\<rparr>]\<rparr>"
    by (simp add: EMBEDDING_DIM_def)
  have log: "new_calls (notes_store five_notes)
       (snd (add_note_to_db stub_services ''x'' (notes_store five_notes))) =
     [Count QDRANT_COLLECTION_NAME,
      EmbeddingsCreate [''x''] EMBEDDING_MODEL 3072,
      Upsert QDRANT_COLLECTION_NAME
        [\<lparr>point_id = 6, vector = stub_vector 3072 1, payload = [(''text'', ''x'')]\<rparr>]]"
    using add_note_to_db_stores
      [OF collections_notes_store, of stub_services "''x''" _ "[]" five_notes]
    by (simp add: stub_embedding new_calls_def length_five_notes EMBEDDING_DIM_def)
  have created: "CreateCollection QDRANT_COLLECTION_NAME 3072 COSINE
      \<in> set (new_calls empty_store (snd (assure_db_collection_exists empty_store)))"
    by (simp add: assure_db_collection_exists_log absent EMBEDDING_DIM_def)
  note claim = stored_vectors_have_collection_dimension
    [where ?w0.0 = empty_store and sv = stub_services and ts = "[''x'', ''yy'']"
       and w = "notes_store five_notes" and t = "''x''" and query = None]
  from claim absent have established:
    "dimension_invariant stub_services ?w1
     \<and> dimension_invariant stub_services (add_notes stub_services [''x'', ''yy''] ?w1)"
    by blast
  from claim five_notes_well_dimensioned have preserved:
    "dimension_invariant stub_services
       (snd (add_note_to_db stub_services ''x'' (notes_store five_notes)))"
    by blast
  from absent established stored preserved five_notes_well_dimensioned created
  show ?thesis
    by (simp add: log stub_embedding length_stub_vector)
qed

subsection \<open>C10: an id that is already taken\<close>

text \<open>
  Claim C10.  When the collection holds \<open>n\<close> points, one of them with the id
  \<open>n + 1\<close>, and the embedding request succeeds, \<^verbatim>\<open>add_note_to_db\<close> returns
  without an error and the collection afterwards is the old one with every point of
  that id replaced by the new point: the number of points is the same, the new point
  is stored, and the point that had the id is gone unless it was equal to the new one.
\<close>

theorem add_note_to_db_overwrites:
  assumes present: "collections w QDRANT_COLLECTION_NAME = Some c"
    and taken: "p \<in> set (points c)" "point_id p = length (points c) + 1"
    and ok: "embeddings_create sv [t] EMBEDDING_MODEL EMBEDDING_DIM = Some (v # rest)"
  shows "fst (add_note_to_db sv t w) = Inr ()
    \<and> (\<exists>c'. collections (snd (add_note_to_db sv t w)) QDRANT_COLLECTION_NAME = Some c'
          \<and> points c' =
              map (\<lambda>x. if point_id x = point_id p
                        then \<lparr>point_id = point_id p, vector = v, payload = [(''text'', t)]\<rparr>
                        else x) (points c)
          \<and> length (points c') = length (points c)
          \<and> \<lparr>point_id = point_id p, vector = v, payload = [(''text'', t)]\<rparr> \<in> set (points c')
          \<and> (p \<in> set (points c') \<longrightarrow>
               p = \<lparr>point_id = point_id p, vector = v, payload = [(''text'', t)]\<rparr>))"
proof -
  let ?new = "\<lparr>point_id = point_id p, vector = v, payload = [(''text'', t)]\<rparr>"
  let ?ps = "map (\<lambda>x. if point_id x = point_id p then ?new else x) (points c)"
  have new: "\<lparr>point_id = length (points c) + 1, vector = v, payload = [(''text'', t)]\<rparr> = ?new"
    using taken(2) by simp
  have "point_id ?new \<in> point_id ` set (points c)"
    using taken(1) by force
  then have replaced: "upsert_point (points c) ?new = ?ps"
    by (simp add: upsert_point_def)
  have run: "add_note_to_db sv t w =
      (Inr (),
       \<lparr>collections = (collections w)(QDRANT_COLLECTION_NAME \<mapsto> c\<lparr>points := ?ps\<rparr>),
        calls = calls w @
          [Count QDRANT_COLLECTION_NAME,
           EmbeddingsCreate [t] EMBEDDING_MODEL EMBEDDING_DIM,
           Upsert QDRANT_COLLECTION_NAME [?new]]\<rparr>)"
    unfolding add_note_to_db_stores [OF present ok] new replaced ..
  have stored: "?new \<in> set ?ps"
    using taken(1) by force
  have gone: "p = ?new" if "p \<in> set ?ps"
    using that by (auto split: if_splits)
  from stored gone show ?thesis
    by (simp add: run)
qed

text \<open>
  The store with the ids 1, 2, 3, 4 and 6: the count is 5, the new note takes the id 6
  and the note that had it, with the text f, is no longer stored.
\<close>

theorem add_note_to_db_overwrites_witness:
  "stored_note 6 ''f'' \<in> set gap_notes
   \<and> point_id (stored_note 6 ''f'') = length gap_notes + 1
   \<and> fst (add_note_to_db stub_services ''x'' (notes_store gap_notes)) = Inr ()
   \<and> collections (snd (add_note_to_db stub_services ''x'' (notes_store gap_notes)))
        QDRANT_COLLECTION_NAME =
       Some \<lparr>vectors_size = EMBEDDING_DIM, vectors_distance = COSINE,
             points =
               [stored_note 1 ''a'', stored_note 2 ''b'', stored_note 3 ''c'',
                stored_note 4 ''d'',
                \<lparr>point_id = 6, vector = stub_vector EMBEDDING_DIM 1,
                  payload = [(''text'', ''x'')]\<rparr>]\<rparr>
   \<and> stored_note 6 ''f''
       \<notin> set [stored_note 1 ''a'', stored_note 2 ''b'', stored_note 3 ''c'',
                stored_note 4 ''d'',
                \<lparr>point_id = 6, vector = stub_vector EMBEDDING_DIM 1,
                  payload = [(''text'', ''x'')]\<rparr>]"
proof -
  have taken: "stored_note 6 ''f'' \<in> set gap_notes"
    "point_id (stored_note 6 ''f'') = length gap_notes + 1"
    by (simp_all add: gap_notes_def stored_note_def)
  have present: "collections (notes_store gap_notes) QDRANT_COLLECTION_NAME =
      Some \<lparr>vectors_size = EMBEDDING_DIM, vectors_distance = COSINE, points = gap_notes\<rparr>"
    by (rule collections_notes_store)
  have taken': "stored_note 6 ''f''
      \<in> set (points \<lparr>vectors_size = EMBEDDING_DIM, vectors_distance = COSINE,
                       points = gap_notes\<rparr>)"
    "point_id (stored_note 6 ''f'') =
       length (points \<lparr>vectors_size = EMBEDDING_DIM, vectors_distance = COSINE,
                        points = gap_notes\<rparr>) + 1"
    using taken by simp_all
  from add_note_to_db_overwrites [OF present taken' stub_embedding, of "''x''"]
  obtain c' where
    "fst (add_note_to_db stub_services ''x'' (notes_store gap_notes)) = Inr ()"
    "collections (snd (add_note_to_db stub_services ''x'' (notes_store gap_notes)))
       QDRANT_COLLECTION_NAME = Some c'"
    "points c' =
       map (\<lambda>x. if point_id x = point_id (stored_note 6 ''f'')
                 then \<lparr>point_id = point_id (stored_note 6 ''f''),
                        vector = stub_vector EMBEDDING_DIM (real (length ''x'')),
                        payload = [(''text'', ''x'')]\<rparr>
                 else x) gap_notes"
    by auto
  moreover have "collections (snd (add_note_to_db stub_services ''x'' (notes_store gap_notes)))
       QDRANT_COLLECTION_NAME =
     Some (\<lparr>vectors_size = EMBEDDING_DIM, vectors_distance = COSINE, points = gap_notes\<rparr>
        \<lparr>points := upsert_point gap_notes
           \<lparr>point_id = length gap_notes + 1, vector = stub_vector EMBEDDING_DIM 1,
             payload = [(''text'', ''x'')]\<rparr>\<rparr>)"
    using add_note_to_db_stores [OF present stub_embedding, of "''x''"]
    by simp
  ultimately show ?thesis
    using taken by (simp add: gap_notes_def stored_note_def upsert_point_def)
qed

end
